theory Spec2Isabelle
  imports Main "HOL-Library.Word" "HOL-Library.Finite_Map"
begin

section \<open>JavaScript strings and numbers\<close>

text \<open>
  A JavaScript string is a sequence of 16-bit code units. ASCII literals of the source are
  written with \<open>ascii\<close>; the three Chinese reset commands are given by their code units.
\<close>

type_synonym jsstring = "16 word list"

definition ascii :: "string \<Rightarrow> jsstring" where
  "ascii s = map of_char s"

text \<open>
  \<open>String.prototype.trim\<close> strips ECMAScript WhiteSpace and LineTerminator code points from
  both ends. All of them lie in the basic multilingual plane, so each is one code unit.
\<close>

definition isLineTerminator :: "16 word \<Rightarrow> bool" where
  "isLineTerminator c = (c = 0x0A \<or> c = 0x0D \<or> c = 0x2028 \<or> c = 0x2029)"

definition isWhiteSpace :: "16 word \<Rightarrow> bool" where
  "isWhiteSpace c =
     (c = 0x09 \<or> c = 0x0B \<or> c = 0x0C \<or> c = 0x20 \<or> c = 0xA0 \<or> c = 0x1680
      \<or> (0x2000 \<le> c \<and> c \<le> 0x200A) \<or> c = 0x202F \<or> c = 0x205F \<or> c = 0x3000
      \<or> c = 0xFEFF \<or> isLineTerminator c)"

definition js_trim :: "jsstring \<Rightarrow> jsstring" where
  "js_trim s = rev (dropWhile isWhiteSpace (rev (dropWhile isWhiteSpace s)))"

text \<open>A text is blank when it is empty or holds white space and line terminators only.\<close>

definition blank :: "jsstring \<Rightarrow> bool" where
  "blank s = list_all isWhiteSpace s"

text \<open>JavaScript truthiness of a string value that may be absent (\<open>undefined\<close>/\<open>null\<close>).\<close>

definition truthy :: "jsstring option \<Rightarrow> bool" where
  "truthy v = (case v of None \<Rightarrow> False | Some s \<Rightarrow> s \<noteq> [])"

text \<open>
  \<open>Date.now()\<close> is an integer number of milliseconds; inside a template literal it is
  rendered in decimal (Number::toString of an integer of magnitude below \<open>10^21\<close>).
\<close>

definition digit :: "nat \<Rightarrow> 16 word" where
  "digit d = of_nat (48 + d)"

fun digits :: "nat \<Rightarrow> jsstring" where
  "digits n = (if n < 10 then [digit n] else digits (n div 10) @ [digit (n mod 10)])"

definition numberToString :: "int \<Rightarrow> jsstring" where
  "numberToString i = (if i < 0 then 0x2D # digits (nat (- i)) else digits (nat i))"


section \<open>Session store (session.ts)\<close>

record UserSession =
  lastActivity :: int
  sessionId :: jsstring

type_synonym userSessions = "jsstring \<rightharpoonup> UserSession"

record SessionKeyResult =
  sessionKey :: jsstring
  isNew :: bool

text \<open>The two template literals of \<open>getSessionKey\<close>.\<close>

definition initialSessionId :: "jsstring \<Rightarrow> jsstring" where
  "initialSessionId senderId = ascii ''dingtalk-connector:'' @ senderId"

definition rotatedSessionId :: "jsstring \<Rightarrow> int \<Rightarrow> jsstring" where
  "rotatedSessionId senderId now =
     ascii ''dingtalk-connector:'' @ senderId @ ascii '':'' @ numberToString now"

text \<open>
  \<open>getSessionKey(senderId, forceNew, sessionTimeout)\<close>. The first argument of the model is
  the value \<open>Date.now()\<close> returns at the top of the call; the module-level map
  \<open>userSessions\<close> is passed in and returned. Logging is left out.
\<close>

definition getSessionKey ::
  "int \<Rightarrow> jsstring \<Rightarrow> bool \<Rightarrow> int \<Rightarrow> userSessions \<Rightarrow> SessionKeyResult \<times> userSessions" where
  "getSessionKey now senderId forceNew sessionTimeout sessions =
     (let existing = sessions senderId in
      if forceNew then
        (let sid = rotatedSessionId senderId now in
         (\<lparr>sessionKey = sid, isNew = True\<rparr>,
          sessions(senderId \<mapsto> \<lparr>lastActivity = now, sessionId = sid\<rparr>)))
      else
        (case existing of
           Some ex \<Rightarrow>
             (let elapsed = now - lastActivity ex in
              if elapsed > sessionTimeout then
                (let sid = rotatedSessionId senderId now in
                 (\<lparr>sessionKey = sid, isNew = True\<rparr>,
                  sessions(senderId \<mapsto> \<lparr>lastActivity = now, sessionId = sid\<rparr>)))
              else
                (\<lparr>sessionKey = sessionId ex, isNew = False\<rparr>,
                 sessions(senderId \<mapsto> ex\<lparr>lastActivity := now\<rparr>)))
         | None \<Rightarrow>
             (let sid = initialSessionId senderId in
              (\<lparr>sessionKey = sid, isNew = False\<rparr>,
               sessions(senderId \<mapsto> \<lparr>lastActivity = now, sessionId = sid\<rparr>)))))"

text \<open>
  A history of calls, run from left to right on the store. Each call carries its own clock
  reading.
\<close>

record SessionCall =
  callNow :: int
  callSender :: jsstring
  callForceNew :: bool
  callTimeout :: int

definition callSession :: "SessionCall \<Rightarrow> userSessions \<Rightarrow> SessionKeyResult \<times> userSessions" where
  "callSession c sessions =
     getSessionKey (callNow c) (callSender c) (callForceNew c) (callTimeout c) sessions"

fun runSessionCalls ::
  "SessionCall list \<Rightarrow> userSessions \<Rightarrow> (jsstring \<times> SessionKeyResult) list \<times> userSessions" where
  "runSessionCalls [] sessions = ([], sessions)"
| "runSessionCalls (c # cs) sessions =
     (let (r, sessions') = callSession c sessions;
          (rs, sessions'') = runSessionCalls cs sessions'
      in ((callSender c, r) # rs, sessions''))"

definition keysReturnedFor :: "jsstring \<Rightarrow> (jsstring \<times> SessionKeyResult) list \<Rightarrow> jsstring set" where
  "keysReturnedFor s rs = {sessionKey r | r. (s, r) \<in> set rs}"



section \<open>Message de-duplication cache (session.ts)\<close>

type_synonym processedMessages = "(jsstring, int) fmap"

definition MESSAGE_DEDUP_TTL :: int where
  "MESSAGE_DEDUP_TTL = 5 * 60 * 1000"

text \<open>
  \<open>cleanupProcessedMessages\<close> reads the clock itself (its argument \<open>now\<close>) and deletes every
  entry with \<open>now - timestamp > MESSAGE_DEDUP_TTL\<close>.
\<close>

definition cleanupProcessedMessages :: "int \<Rightarrow> processedMessages \<Rightarrow> processedMessages" where
  "cleanupProcessedMessages now pm =
     fmfilter (\<lambda>msgId. case fmlookup pm msgId of
                          Some timestamp \<Rightarrow> \<not> (now - timestamp > MESSAGE_DEDUP_TTL)
                        | None \<Rightarrow> False) pm"

definition isMessageProcessed :: "jsstring \<Rightarrow> processedMessages \<Rightarrow> bool" where
  "isMessageProcessed messageId pm =
     (if messageId = [] then False else messageId |\<in>| fmdom pm)"

text \<open>
  \<open>markMessageProcessed\<close>: \<open>now\<close> is the clock reading stored with the id, \<open>sweepNow\<close> the
  reading \<open>cleanupProcessedMessages\<close> takes when the size test sends control there.
\<close>

definition markMessageProcessed ::
  "int \<Rightarrow> int \<Rightarrow> jsstring \<Rightarrow> processedMessages \<Rightarrow> processedMessages" where
  "markMessageProcessed now sweepNow messageId pm =
     (if messageId = [] then pm
      else (let pm' = fmupd messageId now pm in
            if fcard (fmdom pm') \<ge> 100 then cleanupProcessedMessages sweepNow pm' else pm'))"


text \<open>A history of \<open>markMessageProcessed\<close> calls, each with its two clock readings.\<close>

record MarkCall =
  markNow :: int
  markSweepNow :: int
  markId :: jsstring

fun runMarks :: "MarkCall list \<Rightarrow> processedMessages \<Rightarrow> processedMessages" where
  "runMarks [] pm = pm"
| "runMarks (c # cs) pm =
     runMarks cs (markMessageProcessed (markNow c) (markSweepNow c) (markId c) pm)"


section \<open>Reset commands (session.ts)\<close>

definition NEW_SESSION_COMMANDS :: "jsstring list" where
  "NEW_SESSION_COMMANDS =
     [ascii ''/new'', ascii ''/reset'', ascii ''/clear'',
      [0x65B0, 0x4F1A, 0x8BDD],
      [0x91CD, 0x65B0, 0x5F00, 0x59CB],
      [0x6E05, 0x7A7A, 0x5BF9, 0x8BDD]]"

text \<open>
  \<open>isNewSessionCommand\<close>. \<open>String.prototype.toLowerCase\<close> is a built-in of the language whose
  Unicode tables are not part of the repository; it is the parameter \<open>toLowerCase\<close>.
\<close>

definition isNewSessionCommand :: "(jsstring \<Rightarrow> jsstring) \<Rightarrow> jsstring \<Rightarrow> bool" where
  "isNewSessionCommand toLowerCase txt =
     (let trimmed = toLowerCase (js_trim txt)
      in list_ex (\<lambda>cmd. trimmed = toLowerCase cmd) NEW_SESSION_COMMANDS)"

text \<open>An instance of the parameter for evaluation: lower-casing of the ASCII letters.\<close>

definition asciiLower :: "jsstring \<Rightarrow> jsstring" where
  "asciiLower s = map (\<lambda>c. if 0x41 \<le> c \<and> c \<le> 0x5A then c + 0x20 else c) s"


section \<open>Shared types (types.ts)\<close>

record AICardInstance =
  cardInstanceId :: jsstring
  accessToken :: jsstring
  inputingStarted :: bool

datatype AICardTarget = UserTarget jsstring | GroupTarget jsstring

text \<open>
  A value thrown by a rejected promise, as far as the catch blocks read it:
  \<open>err.response?.data?.message\<close> and \<open>err.message\<close>.
\<close>

record ThrownError =
  responseMessage :: "jsstring option"
  errMessage :: "jsstring option"

datatype 'a settled = Fulfilled 'a | Rejected ThrownError


section \<open>Gateway start and stop (channel.ts, startAccount)\<close>

datatype GatewayEffect = ClientConnect | ClientDisconnect | ActivityRecord

datatype GatewayError = NotConfigured | ConnectFailed ThrownError | GatewayRuntimeNotInitialized

text \<open>
  \<open>startAccount\<close> up to its return: the credential check, \<open>client.connect()\<close> (whose outcome
  is given), \<open>getDingTalkRuntime()\<close>, which throws unless \<open>setDingTalkRuntime\<close> has run
  (\<open>runtimeSet\<close>), and the activity record. The result is the calls made and either the
  error thrown or the fresh flag \<open>stopped = false\<close> that the abort listener and the returned
  \<open>stop\<close> function share.
\<close>

definition startAccount ::
  "bool \<Rightarrow> jsstring option \<Rightarrow> jsstring option \<Rightarrow> unit settled
     \<Rightarrow> GatewayEffect list \<times> (GatewayError + bool)" where
  "startAccount runtimeSet clientId clientSecret connectOutcome =
     (if \<not> truthy clientId \<or> \<not> truthy clientSecret then ([], Inl NotConfigured)
      else
        (case connectOutcome of
           Rejected e \<Rightarrow> ([ClientConnect], Inl (ConnectFailed e))
         | Fulfilled u \<Rightarrow>
             if \<not> runtimeSet then ([ClientConnect], Inl GatewayRuntimeNotInitialized)
             else ([ClientConnect, ActivityRecord], Inr False)))"

text \<open>The abort listener and the returned \<open>stop\<close> function, on the shared flag \<open>stopped\<close>.\<close>

definition onAbort :: "bool \<Rightarrow> bool \<times> GatewayEffect list" where
  "onAbort stopped = (if stopped then (stopped, []) else (True, [ClientDisconnect, ActivityRecord]))"

definition stop :: "bool \<Rightarrow> bool \<times> GatewayEffect list" where
  "stop stopped = (if stopped then (stopped, []) else (True, [ClientDisconnect, ActivityRecord]))"

datatype StopSignal = StopCalled | AbortFired

text \<open>The listener exists only when the context carries an abort signal.\<close>

fun handleStopSignal :: "bool \<Rightarrow> StopSignal \<Rightarrow> bool \<Rightarrow> bool \<times> GatewayEffect list" where
  "handleStopSignal hasAbortSignal StopCalled stopped = stop stopped"
| "handleStopSignal hasAbortSignal AbortFired stopped =
     (if hasAbortSignal then onAbort stopped else (stopped, []))"

fun runStopSignals :: "bool \<Rightarrow> StopSignal list \<Rightarrow> bool \<Rightarrow> bool \<times> GatewayEffect list" where
  "runStopSignals hasAbortSignal [] stopped = (stopped, [])"
| "runStopSignals hasAbortSignal (sg # sgs) stopped =
     (let (stopped1, e1) = handleStopSignal hasAbortSignal sg stopped;
          (stopped2, e2) = runStopSignals hasAbortSignal sgs stopped1
      in (stopped2, e1 @ e2))"

fun effective :: "bool \<Rightarrow> StopSignal \<Rightarrow> bool" where
  "effective hasAbortSignal StopCalled = True"
| "effective hasAbortSignal AbortFired = hasAbortSignal"


section \<open>Media markers (media.ts)\<close>

text \<open>
  \<open>processVideoMarkers\<close>, \<open>processAudioMarkers\<close> and \<open>processFileMarkers\<close> each return
  \<open>content.replace(PATTERN, "").trim()\<close>, where the pattern is an opening tag followed by
  \<open>{\<close>, a lazy run of characters other than line terminators, and \<open>}\<close> followed by the
  closing tag, with the global flag.
\<close>

datatype MarkerKind = VideoMarker | AudioMarker | FileMarker

fun markerOpen :: "MarkerKind \<Rightarrow> jsstring" where
  "markerOpen VideoMarker = ascii ''[DINGTALK_VIDEO]{''"
| "markerOpen AudioMarker = ascii ''[DINGTALK_AUDIO]{''"
| "markerOpen FileMarker = ascii ''[DINGTALK_FILE]{''"

fun markerClose :: "MarkerKind \<Rightarrow> jsstring" where
  "markerClose VideoMarker = ascii ''}[/DINGTALK_VIDEO]''"
| "markerClose AudioMarker = ascii ''}[/DINGTALK_AUDIO]''"
| "markerClose FileMarker = ascii ''}[/DINGTALK_FILE]''"

definition startsWith :: "jsstring \<Rightarrow> jsstring \<Rightarrow> bool" where
  "startsWith s p = (take (length p) s = p)"

text \<open>
  The lazy run: the match ends at the first place where the closing text stands; it fails
  at a line terminator or at the end of the input. The result is the text after the match.
\<close>

fun lazyUntil :: "jsstring \<Rightarrow> jsstring \<Rightarrow> jsstring option" where
  "lazyUntil closer [] = (if closer = [] then Some [] else None)"
| "lazyUntil closer (c # cs) =
     (if startsWith (c # cs) closer then Some (drop (length closer) (c # cs))
      else if isLineTerminator c then None
      else lazyUntil closer cs)"

lemma lazyUntil_length: "lazyUntil closer s = Some r \<Longrightarrow> length r \<le> length s"
  by (induction s) (auto split: if_splits)

lemma markerOpen_nonempty: "0 < length (markerOpen k)"
  by (cases k) (simp_all add: ascii_def)

function removeMarkers :: "MarkerKind \<Rightarrow> jsstring \<Rightarrow> jsstring" where
  "removeMarkers k [] = []"
| "removeMarkers k (c # cs) =
     (if startsWith (c # cs) (markerOpen k) then
        (case lazyUntil (markerClose k) (drop (length (markerOpen k)) (c # cs)) of
           Some r \<Rightarrow> removeMarkers k r
         | None \<Rightarrow> c # removeMarkers k cs)
      else c # removeMarkers k cs)"
  by pat_completeness auto
termination removeMarkers
proof (relation "measure (\<lambda>(k, s). length s)")
  show "wf (measure (\<lambda>(k, s). length s))" by simp
next
  fix k :: MarkerKind and c :: "16 word" and cs r :: jsstring
  assume "lazyUntil (markerClose k) (drop (length (markerOpen k)) (c # cs)) = Some r"
  then have "length r \<le> length (drop (length (markerOpen k)) (c # cs))"
    by (rule lazyUntil_length)
  with markerOpen_nonempty[of k] show "((k, r), (k, c # cs)) \<in> measure (\<lambda>(k, s). length s)"
    by (cases "markerOpen k") auto
next
  fix k :: MarkerKind and c :: "16 word" and cs :: jsstring
  show "((k, cs), (k, c # cs)) \<in> measure (\<lambda>(k, s). length s)" by simp
next
  fix k :: MarkerKind and c :: "16 word" and cs :: jsstring
  show "((k, cs), (k, c # cs)) \<in> measure (\<lambda>(k, s). length s)" by simp
qed

definition processVideoMarkers :: "jsstring \<Rightarrow> jsstring" where
  "processVideoMarkers content = js_trim (removeMarkers VideoMarker content)"

definition processAudioMarkers :: "jsstring \<Rightarrow> jsstring" where
  "processAudioMarkers content = js_trim (removeMarkers AudioMarker content)"

definition processFileMarkers :: "jsstring \<Rightarrow> jsstring" where
  "processFileMarkers content = js_trim (removeMarkers FileMarker content)"


section \<open>Local images (media.ts, processLocalImages)\<close>

text \<open>
  \<open>String.prototype.includes\<close> and \<open>String.prototype.replace\<close> with a string pattern: the
  first occurrence of the pattern is replaced by the expansion of the template, in which
  \<open>$$\<close> stands for a dollar sign, \<open>$&\<close> for the matched text, \<open>$\<close> with a backquote for the
  text before the match and \<open>$'\<close> for the text after it; with a string pattern there are no
  groups, so every other \<open>$\<close> is literal.
\<close>

fun splitFirst :: "jsstring \<Rightarrow> jsstring \<Rightarrow> (jsstring \<times> jsstring) option" where
  "splitFirst p [] = (if p = [] then Some ([], []) else None)"
| "splitFirst p (c # cs) =
     (if startsWith (c # cs) p then Some ([], drop (length p) (c # cs))
      else map_option (\<lambda>(front, back). (c # front, back)) (splitFirst p cs))"

definition jsIncludes :: "jsstring \<Rightarrow> jsstring \<Rightarrow> bool" where
  "jsIncludes s p = (splitFirst p s \<noteq> None)"

fun getSubstitution :: "jsstring \<Rightarrow> jsstring \<Rightarrow> jsstring \<Rightarrow> jsstring \<Rightarrow> jsstring" where
  "getSubstitution found front back (c # d # template) =
     (if c = 0x24 \<and> d = 0x24 then 0x24 # getSubstitution found front back template
      else if c = 0x24 \<and> d = 0x26 then found @ getSubstitution found front back template
      else if c = 0x24 \<and> d = 0x60 then front @ getSubstitution found front back template
      else if c = 0x24 \<and> d = 0x27 then back @ getSubstitution found front back template
      else c # getSubstitution found front back (d # template))"
| "getSubstitution found front back template = template"

definition jsReplace :: "jsstring \<Rightarrow> jsstring \<Rightarrow> jsstring \<Rightarrow> jsstring" where
  "jsReplace s p template =
     (case splitFirst p s of
        None \<Rightarrow> s
      | Some (front, back) \<Rightarrow> front @ getSubstitution p front back template @ back)"

text \<open>\<open>s.slice(Math.max(0, i - 10), i)\<close> for an index \<open>i\<close> within \<open>s\<close>.\<close>

definition tenBefore :: "jsstring \<Rightarrow> nat \<Rightarrow> jsstring" where
  "tenBefore s i = drop (i - 10) (take i s)"

text \<open>
  \<open>rawPath.replace(/\\ /g, " ")\<close>: every backslash that is followed by a space is dropped.
  (media.ts holds this function twice; the second listing asks for two backslashes before
  the space. The cleaned path is only handed to the upload.)
\<close>

fun unescapeSpaces :: "jsstring \<Rightarrow> jsstring" where
  "unescapeSpaces (a # b # rest) =
     (if a = 0x5C \<and> b = 0x20 then 0x20 # unescapeSpaces rest else a # unescapeSpaces (b # rest))"
| "unescapeSpaces s = s"

text \<open>
  A match of a regular expression: its index, the matched text and the texts of its
  groups. \<open>matchAllFrom\<close> is \<open>matchAll\<close> for a global expression given by its matcher at one
  position: the search moves on by one code unit where the matcher fails and continues at
  the end of the match where it succeeds (\<open>skip\<close> counts the code units of the last match
  still to pass; an empty match moves on by one).
\<close>

record RegExpMatch =
  matchIndex :: nat
  fullMatch :: jsstring
  groups :: "jsstring list"

fun matchAllFrom ::
  "(jsstring \<Rightarrow> (jsstring \<times> jsstring list) option) \<Rightarrow> nat \<Rightarrow> nat \<Rightarrow> jsstring \<Rightarrow> RegExpMatch list" where
  "matchAllFrom matchAt skip i [] = []"
| "matchAllFrom matchAt skip i (c # cs) =
     (if 0 < skip then matchAllFrom matchAt (skip - 1) (Suc i) cs
      else
        (case matchAt (c # cs) of
           None \<Rightarrow> matchAllFrom matchAt 0 (Suc i) cs
         | Some (full, gs) \<Rightarrow>
             \<lparr>matchIndex = i, fullMatch = full, groups = gs\<rparr>
               # matchAllFrom matchAt (length full - 1) (Suc i) cs))"

definition matchAll :: "(jsstring \<Rightarrow> (jsstring \<times> jsstring list) option) \<Rightarrow> jsstring \<Rightarrow> RegExpMatch list" where
  "matchAll matchAt s = matchAllFrom matchAt 0 0 s"

definition isAsciiLetter :: "16 word \<Rightarrow> bool" where
  "isAsciiLetter c = ((0x41 \<le> c \<and> c \<le> 0x5A) \<or> (0x61 \<le> c \<and> c \<le> 0x7A))"

text \<open>
  \<open>LOCAL_IMAGE_RE\<close> at the start of \<open>s\<close>: \<open>![\<close>, a run without \<open>]\<close> (group 1), \<open>](\<close>, a run
  without \<open>)\<close> (group 2) and \<open>)\<close>. Both runs are greedy and a shorter run cannot be followed
  by the bracket, so each is the longest run. Group 2 has one of three forms:
  \<open>file:///\<close>, \<open>MEDIA:\<close> or \<open>attachment:///\<close> and at least one more code unit; a slash, one of
  six directory names and at least one more code unit; a letter, a colon, one of
  backslash, slash and space, and at least one more code unit.
\<close>

definition localPathForm :: "jsstring \<Rightarrow> bool" where
  "localPathForm p =
     (list_ex (\<lambda>pre. startsWith p (ascii pre) \<and> length pre < length p)
        [''file:///'', ''MEDIA:'', ''attachment:///'']
      \<or> list_ex (\<lambda>d. startsWith p (ascii (CHR ''/'' # d)) \<and> Suc (length d) < length p)
        [''tmp'', ''var'', ''private'', ''Users'', ''home'', ''root'']
      \<or> (case p of
            a # b # c # d # rest \<Rightarrow>
              isAsciiLetter a \<and> b = 0x3A \<and> (c = 0x5C \<or> c = 0x2F \<or> c = 0x20)
          | _ \<Rightarrow> False))"

definition localImageAt :: "jsstring \<Rightarrow> (jsstring \<times> jsstring list) option" where
  "localImageAt s =
     (if startsWith s (ascii ''!['') then
        (let alt = takeWhile (\<lambda>c. c \<noteq> 0x5D) (drop 2 s);
             s1 = dropWhile (\<lambda>c. c \<noteq> 0x5D) (drop 2 s)
         in
         if startsWith s1 (ascii '']('') then
           (let rawPath = takeWhile (\<lambda>c. c \<noteq> 0x29) (drop 2 s1);
                s2 = dropWhile (\<lambda>c. c \<noteq> 0x29) (drop 2 s1)
            in
            if s2 \<noteq> [] \<and> localPathForm rawPath then
              Some (ascii ''!['' @ alt @ ascii '']('' @ rawPath @ ascii '')'', [alt, rawPath])
            else None)
         else None)
      else None)"

text \<open>
  \<open>BARE_IMAGE_PATH_RE\<close> (flags \<open>gi\<close>) at the start of \<open>s\<close>: an optional backquote; group 1,
  which is a slash, a directory name and a slash, or a letter, a colon and a backslash or
  slash, then a run of code units other than white space, backquote, quotes, comma and
  \<open>)\<close>, then a dot and an image extension; an optional backquote. The run is greedy and
  gives back code units from its end until a dot and an extension follow it, the
  extensions tried in the order of the pattern. The pattern has ASCII letters only, and
  ignoring case a code unit equals an ASCII letter exactly when it is that letter in upper
  or lower case.
\<close>

definition canonicalize :: "16 word \<Rightarrow> 16 word" where
  "canonicalize c = (if 0x61 \<le> c \<and> c \<le> 0x7A then c - 0x20 else c)"

definition startsWithIgnoreCase :: "jsstring \<Rightarrow> jsstring \<Rightarrow> bool" where
  "startsWithIgnoreCase s p = (map canonicalize (take (length p) s) = map canonicalize p)"

definition barePathChar :: "16 word \<Rightarrow> bool" where
  "barePathChar c = (\<not> isWhiteSpace c \<and> c \<noteq> 0x60 \<and> c \<noteq> 0x27 \<and> c \<noteq> 0x22 \<and> c \<noteq> 0x2C \<and> c \<noteq> 0x29)"

definition barePrefix :: "jsstring \<Rightarrow> jsstring option" where
  "barePrefix s =
     (case find (\<lambda>d. startsWithIgnoreCase s (ascii (CHR ''/'' # d @ ''/'')))
             [''tmp'', ''var'', ''private'', ''Users'', ''home'', ''root''] of
        Some d \<Rightarrow> Some (take (length d + 2) s)
      | None \<Rightarrow>
          (case s of
             a # b # c # rest \<Rightarrow>
               if isAsciiLetter a \<and> b = 0x3A \<and> (c = 0x5C \<or> c = 0x2F) then Some [a, b, c] else None
           | _ \<Rightarrow> None))"

definition bareImagePathAt :: "jsstring \<Rightarrow> (jsstring \<times> jsstring list) option" where
  "bareImagePathAt s =
     (let tick = (if startsWith s [0x60] then [0x60] else []);
          s1 = drop (length tick) s
      in
      case barePrefix s1 of
        None \<Rightarrow> None
      | Some pre \<Rightarrow>
          (let run = takeWhile barePathChar (drop (length pre) s1) in
           case find (\<lambda>(k, e). run ! k = 0x2E \<and> startsWithIgnoreCase (drop (Suc k) run) (ascii e))
                  (List.product (rev [1..<length run])
                     [''png'', ''jpg'', ''jpeg'', ''gif'', ''bmp'', ''webp'']) of
             None \<Rightarrow> None
           | Some (k, e) \<Rightarrow>
               (let rawPath = pre @ take (Suc k + length e) run;
                    s2 = drop (length rawPath) s1
                in Some (tick @ rawPath @ (if startsWith s2 [0x60] then [0x60] else []), [rawPath]))))"

text \<open>
  \<open>processLocalImages(content, oapiToken)\<close>. \<open>upload n path\<close> is what the \<open>n\<close>-th call of
  \<open>uploadMediaToDingTalk\<close> in this pass answers for \<open>path\<close>: a media id or \<open>null\<close> (that
  function catches every failure). The state of the two loops is the text \<open>result\<close> and the
  list of the paths handed to the upload so far.
\<close>

definition markdownImage :: "jsstring \<Rightarrow> jsstring \<Rightarrow> jsstring" where
  "markdownImage alt target = ascii ''!['' @ alt @ ascii '']('' @ target @ ascii '')''"

definition uploadMarkdownImage ::
  "(nat \<Rightarrow> jsstring \<Rightarrow> jsstring option) \<Rightarrow> RegExpMatch \<Rightarrow> jsstring \<times> jsstring list
     \<Rightarrow> jsstring \<times> jsstring list" where
  "uploadMarkdownImage upload m st =
     (case (groups m, st) of
        ([alt, rawPath], (result, uploads)) \<Rightarrow>
          (let cleanPath = unescapeSpaces rawPath in
           case upload (length uploads) cleanPath of
             Some mediaId \<Rightarrow>
               (if mediaId \<noteq> [] then
                  (jsReplace result (fullMatch m) (markdownImage alt mediaId), uploads @ [cleanPath])
                else (result, uploads @ [cleanPath]))
           | None \<Rightarrow> (result, uploads @ [cleanPath]))
      | _ \<Rightarrow> st)"

definition uploadBareImage ::
  "(nat \<Rightarrow> jsstring \<Rightarrow> jsstring option) \<Rightarrow> RegExpMatch \<Rightarrow> jsstring \<times> jsstring list
     \<Rightarrow> jsstring \<times> jsstring list" where
  "uploadBareImage upload m st =
     (case (groups m, st) of
        ([rawPath], (result, uploads)) \<Rightarrow>
          (case upload (length uploads) rawPath of
             Some mediaId \<Rightarrow>
               (if mediaId \<noteq> [] then
                  (take (matchIndex m) result
                     @ jsReplace (drop (matchIndex m) result) (fullMatch m) (markdownImage [] mediaId),
                   uploads @ [rawPath])
                else (result, uploads @ [rawPath]))
           | None \<Rightarrow> (result, uploads @ [rawPath]))
      | _ \<Rightarrow> st)"

definition processLocalImages ::
  "(nat \<Rightarrow> jsstring \<Rightarrow> jsstring option) \<Rightarrow> jsstring \<Rightarrow> jsstring option \<Rightarrow> jsstring \<times> jsstring list" where
  "processLocalImages upload content token =
     (if \<not> truthy token then (content, [])
      else
        (let st1 = fold (uploadMarkdownImage upload) (matchAll localImageAt content) (content, []);
             bareMatches = filter (\<lambda>m. \<not> jsIncludes (tenBefore (fst st1) (matchIndex m)) (ascii ''](''))
                             (matchAll bareImagePathAt (fst st1))
         in fold (uploadBareImage upload) (rev bareMatches) st1))"


section \<open>Outbound delivery (send.ts)\<close>

record DingtalkAccountConfig =
  clientId :: "jsstring option"
  clientSecret :: "jsstring option"
  sessionTimeout :: "int option"

datatype DingTalkMsgType = MsgText | MsgMarkdown | MsgLink | MsgActionCard | MsgImage

record ProactiveSendOptions =
  msgType :: "DingTalkMsgType option"
  title :: "jsstring option"
  useAICard :: "bool option"
  fallbackToNormal :: "bool option"

record SendResult =
  ok :: bool
  processQueryKey :: "jsstring option"
  resultCardInstanceId :: "jsstring option"
  error :: "jsstring option"
  usedAICard :: "bool option"

text \<open>The \<open>msgParam\<close> objects of \<open>buildMsgPayload\<close>, before \<open>JSON.stringify\<close>.\<close>

datatype MsgParam =
    MarkdownParam jsstring jsstring
  | ParsedJson jsstring
  | ImageParam jsstring
  | TextParam jsstring

record ResponseData =
  respProcessQueryKey :: "jsstring option"
  respMessage :: "jsstring option"

text \<open>
  What the collaborators of send.ts answer: the OAPI token (\<open>getOapiAccessToken\<close> catches
  every failure and returns \<open>null\<close>), the uploads of \<open>processLocalImages\<close> (the answer of the
  \<open>n\<close>-th upload of a pass for a path), card creation and finalisation (bot.ts), the access
  token, the two HTTP posts, and whether \<open>JSON.parse\<close> accepts a text.
\<close>

record SendEnv =
  oapiToken :: "jsstring option"
  uploadMediaToDingTalk :: "nat \<Rightarrow> jsstring \<Rightarrow> jsstring option"
  createAICardForTarget :: "AICardTarget \<Rightarrow> AICardInstance option settled"
  finishAICard :: "AICardInstance \<Rightarrow> jsstring \<Rightarrow> unit settled"
  getAccessToken :: "jsstring settled"
  postBatchSend :: "jsstring list \<Rightarrow> jsstring \<Rightarrow> MsgParam \<Rightarrow> ResponseData option settled"
  postGroupSend :: "jsstring \<Rightarrow> jsstring \<Rightarrow> MsgParam \<Rightarrow> ResponseData option settled"
  jsonParses :: "jsstring \<Rightarrow> bool"

text \<open>
  The trace of a send: the entries of the three internal paths and the calls that leave
  send.ts.
\<close>

datatype SendCall =
    EnterAICard AICardTarget jsstring
  | EnterNormalToUser "jsstring list" jsstring
  | EnterNormalToGroup jsstring jsstring
  | GetOapiAccessToken
  | ProcessLocalImages jsstring
  | UploadMedia jsstring
  | CreateCard AICardTarget
  | FinishCard AICardInstance jsstring
  | GetAccessToken
  | PostBatchSend "jsstring option" "jsstring list" jsstring MsgParam
  | PostGroupSend "jsstring option" jsstring jsstring MsgParam

definition orElse :: "jsstring option \<Rightarrow> jsstring option \<Rightarrow> jsstring option" where
  "orElse a b = (if truthy a then a else b)"

text \<open>
  The catch blocks: \<open>err.response?.data?.message || err.message || "Unknown error"\<close>.
\<close>

definition failureResult :: "ThrownError \<Rightarrow> SendResult" where
  "failureResult e =
     \<lparr>ok = False, processQueryKey = None, resultCardInstanceId = None,
      error = orElse (orElse (responseMessage e) (errMessage e)) (Some (ascii ''Unknown error'')),
      usedAICard = Some False\<rparr>"

definition msgTypeName :: "DingTalkMsgType \<Rightarrow> jsstring" where
  "msgTypeName t =
     (case t of MsgText \<Rightarrow> ascii ''text'' | MsgMarkdown \<Rightarrow> ascii ''markdown''
      | MsgLink \<Rightarrow> ascii ''link'' | MsgActionCard \<Rightarrow> ascii ''actionCard''
      | MsgImage \<Rightarrow> ascii ''image'')"

definition buildMsgPayload ::
  "SendEnv \<Rightarrow> DingTalkMsgType \<Rightarrow> jsstring \<Rightarrow> jsstring option \<Rightarrow> jsstring + (jsstring \<times> MsgParam)" where
  "buildMsgPayload env t content ttl =
     (case t of
        MsgMarkdown \<Rightarrow>
          Inr (ascii ''sampleMarkdown'',
               MarkdownParam (case orElse ttl None of Some x \<Rightarrow> x | None \<Rightarrow> ascii ''Message'')
                             content)
      | MsgLink \<Rightarrow>
          (if jsonParses env content then Inr (ascii ''sampleLink'', ParsedJson content)
           else Inl (ascii ''Invalid '' @ msgTypeName t @ ascii '' message format''))
      | MsgActionCard \<Rightarrow>
          (if jsonParses env content then Inr (ascii ''sampleActionCard'', ParsedJson content)
           else Inl (ascii ''Invalid '' @ msgTypeName t @ ascii '' message format''))
      | MsgImage \<Rightarrow> Inr (ascii ''sampleImageMsg'', ImageParam content)
      | MsgText \<Rightarrow> Inr (ascii ''sampleText'', TextParam content))"

definition responseResult :: "ResponseData option \<Rightarrow> SendResult" where
  "responseResult d =
     (case d of
        None \<Rightarrow>
          \<lparr>ok = False, processQueryKey = None, resultCardInstanceId = None,
           error = Some (ascii ''Unknown error''), usedAICard = Some False\<rparr>
      | Some r \<Rightarrow>
          (if truthy (respProcessQueryKey r) then
             \<lparr>ok = True, processQueryKey = respProcessQueryKey r, resultCardInstanceId = None,
              error = None, usedAICard = Some False\<rparr>
           else
             \<lparr>ok = False, processQueryKey = None, resultCardInstanceId = None,
              error = orElse (respMessage r) (Some (ascii ''Unknown error'')),
              usedAICard = Some False\<rparr>))"

definition payloadErrorResult :: "jsstring \<Rightarrow> SendResult" where
  "payloadErrorResult msg =
     \<lparr>ok = False, processQueryKey = None, resultCardInstanceId = None, error = Some msg,
      usedAICard = Some False\<rparr>"

definition sendNormalToUser ::
  "SendEnv \<Rightarrow> DingtalkAccountConfig \<Rightarrow> jsstring list \<Rightarrow> jsstring \<Rightarrow> ProactiveSendOptions
     \<Rightarrow> SendResult \<times> SendCall list" where
  "sendNormalToUser env config userIdArray content options =
     (let t = (case msgType options of None \<Rightarrow> MsgText | Some m \<Rightarrow> m) in
      case buildMsgPayload env t content (title options) of
        Inl msg \<Rightarrow> (payloadErrorResult msg, [EnterNormalToUser userIdArray content])
      | Inr (msgKey, msgParam) \<Rightarrow>
          (case getAccessToken env of
             Rejected e \<Rightarrow>
               (failureResult e, [EnterNormalToUser userIdArray content, GetAccessToken])
           | Fulfilled token \<Rightarrow>
               (case postBatchSend env userIdArray msgKey msgParam of
                  Rejected e \<Rightarrow>
                    (failureResult e,
                     [EnterNormalToUser userIdArray content, GetAccessToken,
                      PostBatchSend (clientId config) userIdArray msgKey msgParam])
                | Fulfilled d \<Rightarrow>
                    (responseResult d,
                     [EnterNormalToUser userIdArray content, GetAccessToken,
                      PostBatchSend (clientId config) userIdArray msgKey msgParam]))))"

definition sendNormalToGroup ::
  "SendEnv \<Rightarrow> DingtalkAccountConfig \<Rightarrow> jsstring \<Rightarrow> jsstring \<Rightarrow> ProactiveSendOptions
     \<Rightarrow> SendResult \<times> SendCall list" where
  "sendNormalToGroup env config openConversationId content options =
     (let t = (case msgType options of None \<Rightarrow> MsgText | Some m \<Rightarrow> m) in
      case buildMsgPayload env t content (title options) of
        Inl msg \<Rightarrow> (payloadErrorResult msg, [EnterNormalToGroup openConversationId content])
      | Inr (msgKey, msgParam) \<Rightarrow>
          (case getAccessToken env of
             Rejected e \<Rightarrow>
               (failureResult e, [EnterNormalToGroup openConversationId content, GetAccessToken])
           | Fulfilled token \<Rightarrow>
               (case postGroupSend env openConversationId msgKey msgParam of
                  Rejected e \<Rightarrow>
                    (failureResult e,
                     [EnterNormalToGroup openConversationId content, GetAccessToken,
                      PostGroupSend (clientId config) openConversationId msgKey msgParam])
                | Fulfilled d \<Rightarrow>
                    (responseResult d,
                     [EnterNormalToGroup openConversationId content, GetAccessToken,
                      PostGroupSend (clientId config) openConversationId msgKey msgParam]))))"

text \<open>
  The media pass of \<open>sendAICardInternal\<close>: with a truthy OAPI token the content goes through
  \<open>processLocalImages\<close> and the three marker passes, otherwise it is left as it is.
  \<open>processedContent\<close> is the text that results, \<open>mediaCalls\<close> the calls made on the way.
\<close>

definition processedContent :: "SendEnv \<Rightarrow> jsstring \<Rightarrow> jsstring" where
  "processedContent env content =
     (if truthy (oapiToken env) then
        processFileMarkers (processAudioMarkers (processVideoMarkers
          (fst (processLocalImages (uploadMediaToDingTalk env) content (oapiToken env)))))
      else content)"

definition mediaCalls :: "SendEnv \<Rightarrow> jsstring \<Rightarrow> SendCall list" where
  "mediaCalls env content =
     (if truthy (oapiToken env) then
        [GetOapiAccessToken, ProcessLocalImages content]
          @ map UploadMedia (snd (processLocalImages (uploadMediaToDingTalk env) content (oapiToken env)))
      else [GetOapiAccessToken])"

definition sendAICardInternal ::
  "SendEnv \<Rightarrow> DingtalkAccountConfig \<Rightarrow> AICardTarget \<Rightarrow> jsstring \<Rightarrow> SendResult \<times> SendCall list" where
  "sendAICardInternal env config target content =
     (let processed = processedContent env content;
          pre = EnterAICard target content # mediaCalls env content
      in
      if js_trim processed = [] then
        (\<lparr>ok = True, processQueryKey = None, resultCardInstanceId = None, error = None,
          usedAICard = Some False\<rparr>, pre)
      else
        (case createAICardForTarget env target of
           Rejected e \<Rightarrow> (failureResult e, pre @ [CreateCard target])
         | Fulfilled None \<Rightarrow>
             (\<lparr>ok = False, processQueryKey = None, resultCardInstanceId = None,
               error = Some (ascii ''Failed to create AI Card''), usedAICard = Some False\<rparr>,
              pre @ [CreateCard target])
         | Fulfilled (Some c) \<Rightarrow>
             (case finishAICard env c processed of
                Rejected e \<Rightarrow>
                  (failureResult e, pre @ [CreateCard target, FinishCard c processed])
              | Fulfilled u \<Rightarrow>
                  (\<lparr>ok = True, processQueryKey = None,
                    resultCardInstanceId = Some (cardInstanceId c), error = None,
                    usedAICard = Some True\<rparr>,
                   pre @ [CreateCard target, FinishCard c processed]))))"

text \<open>\<open>userIds: string | string[]\<close> and \<open>Array.isArray(userIds) ? userIds : [userIds]\<close>.\<close>

datatype UserIds = OneId jsstring | IdArray "jsstring list"

definition toUserIdArray :: "UserIds \<Rightarrow> jsstring list" where
  "toUserIdArray u = (case u of OneId x \<Rightarrow> [x] | IdArray xs \<Rightarrow> xs)"

definition optionOr :: "bool option \<Rightarrow> bool \<Rightarrow> bool" where
  "optionOr v dflt = (case v of None \<Rightarrow> dflt | Some b \<Rightarrow> b)"

definition sendToUser ::
  "SendEnv \<Rightarrow> DingtalkAccountConfig \<Rightarrow> UserIds \<Rightarrow> jsstring \<Rightarrow> ProactiveSendOptions
     \<Rightarrow> SendResult \<times> SendCall list" where
  "sendToUser env config userIds content options =
     (let userIdArray = toUserIdArray userIds in
      if optionOr (useAICard options) True \<and> length userIdArray = 1 then
        (let (cardResult, t1) =
               sendAICardInternal env config (UserTarget (hd userIdArray)) content
         in if ok cardResult \<or> \<not> optionOr (fallbackToNormal options) True then (cardResult, t1)
            else (let (r, t2) = sendNormalToUser env config userIdArray content options
                  in (r, t1 @ t2)))
      else sendNormalToUser env config userIdArray content options)"

definition sendToGroup ::
  "SendEnv \<Rightarrow> DingtalkAccountConfig \<Rightarrow> jsstring \<Rightarrow> jsstring \<Rightarrow> ProactiveSendOptions
     \<Rightarrow> SendResult \<times> SendCall list" where
  "sendToGroup env config openConversationId content options =
     (if optionOr (useAICard options) True then
        (let (cardResult, t1) =
               sendAICardInternal env config (GroupTarget openConversationId) content
         in if ok cardResult \<or> \<not> optionOr (fallbackToNormal options) True then (cardResult, t1)
            else (let (r, t2) = sendNormalToGroup env config openConversationId content options
                  in (r, t1 @ t2)))
      else sendNormalToGroup env config openConversationId content options)"

text \<open>
  The markdown test of \<open>sendProactive\<close>: a first character among \<open>#*>-\<close>, any character
  among \<open>*_#[]\<close> or the backquote (code 0x60), or a line feed.
\<close>

definition looksLikeMarkdown :: "jsstring \<Rightarrow> bool" where
  "looksLikeMarkdown content =
     ((case content of [] \<Rightarrow> False | c # cs \<Rightarrow> c \<in> set (ascii ''#*>-''))
      \<or> list_ex (\<lambda>c. c \<in> set (ascii ''*_#[]'') \<or> c = 0x60) content
      \<or> list_ex (\<lambda>c. c = 0x0A) content)"

record ProactiveTarget =
  targetUserId :: "jsstring option"
  targetUserIds :: "jsstring list option"
  targetOpenConversationId :: "jsstring option"

definition detectMsgType :: "jsstring \<Rightarrow> ProactiveSendOptions \<Rightarrow> ProactiveSendOptions" where
  "detectMsgType content options =
     (if msgType options = None \<and> looksLikeMarkdown content
      then options\<lparr>msgType := Some MsgMarkdown\<rparr> else options)"

definition sendProactive ::
  "SendEnv \<Rightarrow> DingtalkAccountConfig \<Rightarrow> ProactiveTarget \<Rightarrow> jsstring \<Rightarrow> ProactiveSendOptions
     \<Rightarrow> SendResult \<times> SendCall list" where
  "sendProactive env config target content options =
     (let options' = detectMsgType content options in
      if truthy (targetUserId target) \<or> targetUserIds target \<noteq> None then
        sendToUser env config
          (case targetUserIds target of
             Some ids \<Rightarrow> IdArray ids
           | None \<Rightarrow> IdArray [case targetUserId target of Some u \<Rightarrow> u | None \<Rightarrow> []])
          content options'
      else if truthy (targetOpenConversationId target) then
        sendToGroup env config
          (case targetOpenConversationId target of Some g \<Rightarrow> g | None \<Rightarrow> [])
          content options'
      else
        (\<lparr>ok = False, processQueryKey = None, resultCardInstanceId = None,
          error = Some (ascii ''Must specify userId, userIds, or openConversationId''),
          usedAICard = Some False\<rparr>, []))"

text \<open>The options object \<open>{}\<close>: every option is absent.\<close>

definition defaultOptions :: ProactiveSendOptions where
  "defaultOptions = \<lparr>msgType = None, title = None, useAICard = None, fallbackToNormal = None\<rparr>"


section \<open>Reply dispatcher (reply-dispatcher.ts)\<close>

text \<open>
  The closure of \<open>createDingTalkReplyDispatcher\<close>: the values it captures (\<open>DispatcherEnv\<close>,
  with the chunker of the plugin runtime as a field) and its two mutable variables
  (\<open>DispatcherState\<close>). The dispatcher runs its callbacks one after the other; each handler
  below is one callback run to completion, its awaits included.
\<close>

datatype ReplyKind = ToolReply | BlockReply | FinalReply

record DispatcherEnv =
  accountConfig :: DingtalkAccountConfig
  isDirect :: bool
  replySenderId :: jsstring
  replyConversationId :: jsstring
  textChunkLimit :: nat
  chunkMode :: jsstring
  chunkTextWithMode :: "jsstring \<Rightarrow> nat \<Rightarrow> jsstring \<Rightarrow> jsstring list"

text \<open>
  \<open>cardCreationPromise\<close> is \<open>null\<close>, a pending promise or a settled one. A pending promise
  carries what \<open>createAICardForTarget\<close> will answer; the assignment to \<open>card\<close> inside the
  async block happens when the promise settles, which \<open>awaitCreation\<close> performs.
\<close>

datatype CreationPromise = Pending "AICardInstance option settled" | Settled

record DispatcherState =
  cardRef :: "AICardInstance option"
  cardCreationPromise :: "CreationPromise option"

text \<open>
  What a callback does outside the closure: the card creation of \<open>startCard\<close>, the card
  finalisation of \<open>closeCard\<close>, and the call of \<open>sendToUser\<close> or \<open>sendToGroup\<close> that
  \<open>sendPlainText\<close> awaits, given by the trace of that call.
\<close>

datatype ReplyEffect =
    CreateAICardForTarget AICardTarget
  | FinishAICard AICardInstance jsstring
  | SendPlainText "SendCall list"

definition initialDispatcherState :: DispatcherState where
  "initialDispatcherState = \<lparr>cardRef = None, cardCreationPromise = None\<rparr>"

definition replyTarget :: "DispatcherEnv \<Rightarrow> AICardTarget" where
  "replyTarget env =
     (if isDirect env then UserTarget (replySenderId env) else GroupTarget (replyConversationId env))"

definition awaitCreation :: "DispatcherState \<Rightarrow> DispatcherState" where
  "awaitCreation st =
     (case cardCreationPromise st of
        Some (Pending outcome) \<Rightarrow>
          st\<lparr>cardRef := (case outcome of Fulfilled c \<Rightarrow> c | Rejected e \<Rightarrow> None),
             cardCreationPromise := Some Settled\<rparr>
      | _ \<Rightarrow> st)"

definition startCard ::
  "DispatcherEnv \<Rightarrow> AICardInstance option settled \<Rightarrow> DispatcherState \<Rightarrow> DispatcherState \<times> ReplyEffect list" where
  "startCard env outcome st =
     (if cardCreationPromise st \<noteq> None \<or> cardRef st \<noteq> None then (st, [])
      else (st\<lparr>cardCreationPromise := Some (Pending outcome)\<rparr>,
            [CreateAICardForTarget (replyTarget env)]))"

definition closeCard :: "jsstring \<Rightarrow> DispatcherState \<Rightarrow> DispatcherState \<times> ReplyEffect list" where
  "closeCard finalText st =
     (let st1 = awaitCreation st in
      case cardRef st1 of
        Some c \<Rightarrow>
          (st1\<lparr>cardRef := None, cardCreationPromise := None\<rparr>,
           [FinishAICard c (if finalText = [] then ascii ''Done'' else finalText)])
      | None \<Rightarrow> (st1\<lparr>cardCreationPromise := None\<rparr>, []))"

text \<open>
  \<open>sendPlainText\<close> awaits \<open>sendToUser(dingtalkConfig, senderId, text, {})\<close> for a direct
  chat and \<open>sendToGroup(dingtalkConfig, conversationId, text, {})\<close> otherwise, and drops the
  result. \<open>senv\<close> is what the collaborators of send.ts answer during this call.
\<close>

definition sendPlainText :: "DispatcherEnv \<Rightarrow> SendEnv \<Rightarrow> jsstring \<Rightarrow> ReplyEffect" where
  "sendPlainText env senv chunk =
     (if isDirect env then
        SendPlainText (snd (sendToUser senv (accountConfig env) (OneId (replySenderId env)) chunk
                              defaultOptions))
      else
        SendPlainText (snd (sendToGroup senv (accountConfig env) (replyConversationId env) chunk
                              defaultOptions)))"

text \<open>
  \<open>deliver(payload, info)\<close>. \<open>sends i\<close> is what the collaborators of send.ts answer while the
  chunk of index \<open>i\<close> is sent; the loop awaits each send before it takes the next chunk.
\<close>

definition deliver ::
  "DispatcherEnv \<Rightarrow> (nat \<Rightarrow> SendEnv) \<Rightarrow> jsstring option \<Rightarrow> ReplyKind option \<Rightarrow> DispatcherState
     \<Rightarrow> DispatcherState \<times> ReplyEffect list" where
  "deliver env sends payloadText kind st =
     (let txt = (case payloadText of None \<Rightarrow> [] | Some t \<Rightarrow> t) in
      if js_trim txt = [] then (st, [])
      else
        (let st1 = awaitCreation st in
         case cardRef st1 of
           Some c \<Rightarrow> (if kind = Some FinalReply then closeCard txt st1 else (st1, []))
         | None \<Rightarrow>
             (st1, map (\<lambda>(i, chunk). sendPlainText env (sends i) chunk)
                       (enumerate 0 (chunkTextWithMode env txt (textChunkLimit env) (chunkMode env))))))"

text \<open>
  \<open>onReplyStart\<close> calls \<open>startCard\<close> and then the typing callback, whose \<open>start\<close> handler calls
  \<open>startCard\<close> again. \<open>onError\<close> closes the card with the error text.
\<close>

definition onReplyStart ::
  "DispatcherEnv \<Rightarrow> AICardInstance option settled \<Rightarrow> DispatcherState \<Rightarrow> DispatcherState \<times> ReplyEffect list" where
  "onReplyStart env outcome st =
     (let (st1, e1) = startCard env outcome st;
          (st2, e2) = startCard env outcome st1
      in (st2, e1 @ e2))"

definition onError :: "jsstring \<Rightarrow> DispatcherState \<Rightarrow> DispatcherState \<times> ReplyEffect list" where
  "onError errorText st = closeCard (ascii ''Error: '' @ errorText) st"

datatype ReplyEvent =
    ReplyStart "AICardInstance option settled"
  | Fragment "jsstring option" "ReplyKind option" "nat \<Rightarrow> SendEnv"
  | DispatchError jsstring

fun handleReplyEvent ::
  "DispatcherEnv \<Rightarrow> ReplyEvent \<Rightarrow> DispatcherState \<Rightarrow> DispatcherState \<times> ReplyEffect list" where
  "handleReplyEvent env (ReplyStart outcome) st = onReplyStart env outcome st"
| "handleReplyEvent env (Fragment payloadText kind sends) st = deliver env sends payloadText kind st"
| "handleReplyEvent env (DispatchError errorText) st = onError errorText st"

fun runReplyEvents ::
  "DispatcherEnv \<Rightarrow> ReplyEvent list \<Rightarrow> DispatcherState \<Rightarrow> DispatcherState \<times> ReplyEffect list" where
  "runReplyEvents env [] st = (st, [])"
| "runReplyEvents env (ev # evs) st =
     (let (st1, e1) = handleReplyEvent env ev st;
          (st2, e2) = runReplyEvents env evs st1
      in (st2, e1 @ e2))"

fun isCreation :: "ReplyEffect \<Rightarrow> bool" where
  "isCreation (CreateAICardForTarget t) = True"
| "isCreation _ = False"

fun isFinish :: "ReplyEffect \<Rightarrow> bool" where
  "isFinish (FinishAICard c t) = True"
| "isFinish _ = False"

fun isDispatchError :: "ReplyEvent \<Rightarrow> bool" where
  "isDispatchError (DispatchError e) = True"
| "isDispatchError _ = False"

text \<open>
  Modelled from the spec: \<open>chunkTextWithMode\<close> of the plugin runtime, whose code is not among
  these sources. The spec says that the text is split into size-bounded chunks according
  to the configured limit and chunk mode; here it is cut, for every mode, into consecutive
  pieces of \<open>limit\<close> code units, the last one shorter when the length is no multiple of the
  limit (and left whole when the limit is 0).
\<close>

function specChunkText :: "jsstring \<Rightarrow> nat \<Rightarrow> jsstring \<Rightarrow> jsstring list" where
  "specChunkText txt limit mode =
     (if limit = 0 \<or> length txt \<le> limit then [txt]
      else take limit txt # specChunkText (drop limit txt) limit mode)"
  by pat_completeness auto
termination specChunkText
  by (relation "measure (\<lambda>(txt, limit, mode). length txt)") auto

declare specChunkText.simps [simp del]


section \<open>Inbound events (bot.ts)\<close>

text \<open>
  The fields of the platform event that \<open>extractMessageContent\<close> and
  \<open>handleDingTalkMessage\<close> read. \<open>eventText\<close> is \<open>data.text?.content\<close>; \<open>richText\<close>,
  \<open>recognition\<close> and \<open>fileName\<close> are read from \<open>data.content\<close>.
\<close>

record RichTextPart =
  partType :: "jsstring option"
  partText :: "jsstring option"

record DingTalkEvent =
  msgtype :: "jsstring option"
  eventText :: "jsstring option"
  richText :: "RichTextPart list option"
  recognition :: "jsstring option"
  fileName :: "jsstring option"
  conversationType :: "jsstring option"
  senderStaffId :: "jsstring option"
  eventSenderId :: jsstring
  senderNick :: "jsstring option"
  eventConversationId :: jsstring
  msgId :: "jsstring option"

definition valueOr :: "jsstring option \<Rightarrow> jsstring \<Rightarrow> jsstring" where
  "valueOr v dflt = (case v of None \<Rightarrow> dflt | Some x \<Rightarrow> if x = [] then dflt else x)"

definition trimmedEventText :: "DingTalkEvent \<Rightarrow> jsstring option" where
  "trimmedEventText d = map_option js_trim (eventText d)"

definition extractMessageContent :: "DingTalkEvent \<Rightarrow> jsstring \<times> jsstring" where
  "extractMessageContent d =
     (let mt = valueOr (msgtype d) (ascii ''text'') in
      if mt = ascii ''text'' then (valueOr (trimmedEventText d) [], ascii ''text'')
      else if mt = ascii ''richText'' then
        (let parts = (case richText d of None \<Rightarrow> [] | Some ps \<Rightarrow> ps);
             joined = concat (map (\<lambda>p. case partText p of None \<Rightarrow> [] | Some t \<Rightarrow> t)
                               (filter (\<lambda>p. partType p = Some (ascii ''text'')) parts))
         in (if joined = [] then ascii ''[richText]'' else joined, ascii ''richText''))
      else if mt = ascii ''picture'' then (ascii ''[picture]'', ascii ''picture'')
      else if mt = ascii ''audio'' then (valueOr (recognition d) (ascii ''[audio]''), ascii ''audio'')
      else if mt = ascii ''video'' then (ascii ''[video]'', ascii ''video'')
      else if mt = ascii ''file'' then
        (ascii ''[file: '' @ valueOr (fileName d) (ascii ''file'') @ ascii '']'', ascii ''file'')
      else (valueOr (trimmedEventText d) (ascii ''['' @ mt @ ascii '']''), mt))"

text \<open>
  The calls \<open>handleDingTalkMessage\<close> makes into the plugin runtime and into
  reply-dispatcher.ts, in the order of the source.
\<close>

datatype CoreCall =
    ResolveAgentRoute bool jsstring
  | ResolveEnvelopeFormatOptions
  | FormatAgentEnvelope jsstring jsstring
  | ShouldComputeCommandAuthorized jsstring
  | ResolveCommandAuthorizedFromAuthorizers
  | FinalizeInboundContext jsstring jsstring
  | CreateDingTalkReplyDispatcher jsstring bool jsstring
  | EnqueueSystemEvent
  | DispatchReplyFromConfig
  | MarkDispatchIdle

datatype HandlerError = RuntimeNotInitialized

text \<open>
  What the surroundings answer: whether \<open>setDingTalkRuntime\<close> has run (\<open>getDingTalkRuntime\<close>
  throws otherwise), the built-in \<open>toLowerCase\<close>, the runtime's answer to
  \<open>shouldComputeCommandAuthorized\<close>, and whether \<open>dispatchReplyFromConfig\<close> rejects.
\<close>

record HandlerEnv =
  runtimeInitialized :: bool
  toLowerCaseFn :: "jsstring \<Rightarrow> jsstring"
  computeCommandAuthorized :: "jsstring \<Rightarrow> bool"
  dispatchOutcome :: "unit settled"

definition replyFlow :: "HandlerEnv \<Rightarrow> DingTalkEvent \<Rightarrow> jsstring \<Rightarrow> CoreCall list" where
  "replyFlow env d txt =
     (let direct = (conversationType d = Some (ascii ''1''));
          sender = valueOr (senderStaffId d) (eventSenderId d);
          nick = valueOr (senderNick d) sender;
          conv = eventConversationId d
      in
      [ResolveAgentRoute direct (if direct then sender else conv),
       ResolveEnvelopeFormatOptions,
       FormatAgentEnvelope (if direct then sender else conv @ ascii '':'' @ sender)
                           (nick @ ascii '': '' @ txt),
       ShouldComputeCommandAuthorized txt]
      @ (if computeCommandAuthorized env txt then [ResolveCommandAuthorizedFromAuthorizers] else [])
      @ [FinalizeInboundContext (ascii ''dingtalk:'' @ sender)
           (if direct then ascii ''user:'' @ sender else ascii ''group:'' @ conv),
         CreateDingTalkReplyDispatcher sender direct conv,
         EnqueueSystemEvent,
         DispatchReplyFromConfig]
      @ (case dispatchOutcome env of Fulfilled u \<Rightarrow> [MarkDispatchIdle] | Rejected e \<Rightarrow> []))"

definition handleDingTalkMessage ::
  "HandlerEnv \<Rightarrow> int \<Rightarrow> DingtalkAccountConfig \<Rightarrow> DingTalkEvent \<Rightarrow> userSessions
     \<Rightarrow> HandlerError + (userSessions \<times> CoreCall list)" where
  "handleDingTalkMessage env now dingtalkConfig d sessions =
     (if \<not> runtimeInitialized env then Inl RuntimeNotInitialized
      else
        (let (txt, messageType) = extractMessageContent d in
         if txt = [] then Inr (sessions, [])
         else
           (let sender = valueOr (senderStaffId d) (eventSenderId d);
                timeout = (case sessionTimeout dingtalkConfig of None \<Rightarrow> 1800000 | Some t \<Rightarrow> t);
                forceNewSession = isNewSessionCommand (toLowerCaseFn env) txt
            in
            if forceNewSession then
              Inr (snd (getSessionKey now sender True timeout sessions), [])
            else Inr (sessions, replyFlow env d txt))))"


section \<open>Auxiliary notions for the statements\<close>

text \<open>Keys a sender's session can hold, given the clock readings of the calls so far.\<close>

definition keysFrom :: "jsstring \<Rightarrow> int set \<Rightarrow> jsstring set" where
  "keysFrom s T = insert (initialSessionId s) (rotatedSessionId s ` T)"

definition storeWithin :: "jsstring \<Rightarrow> int set \<Rightarrow> userSessions \<Rightarrow> bool" where
  "storeWithin s T sessions = (\<forall>ses. sessions s = Some ses \<longrightarrow> sessionId ses \<in> keysFrom s T)"

text \<open>
  The clock readings at which a history rotated the session of \<open>s\<close>: the readings of the
  calls for \<open>s\<close> that returned \<open>isNew = true\<close> (\<open>cs\<close> are the calls and \<open>rs\<close> their results).
\<close>

definition rotationReadings ::
  "jsstring \<Rightarrow> SessionCall list \<Rightarrow> (jsstring \<times> SessionKeyResult) list \<Rightarrow> int set" where
  "rotationReadings s cs rs =
     {callNow c | c r. (c, (s, r)) \<in> set (zip cs rs) \<and> callSender c = s \<and> isNew r}"

text \<open>Counting card creations, card finalisations and dispatch errors of a turn.\<close>

definition creations :: "ReplyEffect list \<Rightarrow> nat" where
  "creations es = length (filter isCreation es)"

definition finishes :: "ReplyEffect list \<Rightarrow> nat" where
  "finishes es = length (filter isFinish es)"

definition dispatchErrors :: "ReplyEvent list \<Rightarrow> nat" where
  "dispatchErrors evs = length (filter isDispatchError evs)"

definition slack :: "DispatcherState \<Rightarrow> nat" where
  "slack st = (if cardCreationPromise st = None \<and> cardRef st = None then 1 else 0)"

text \<open>Concrete values for the instances below.\<close>

definition sender_u1 :: jsstring where
  "sender_u1 = ascii ''u1''"

definition call_a :: SessionCall where
  "call_a = \<lparr>callNow = 1000, callSender = sender_u1, callForceNew = True, callTimeout = 1800000\<rparr>"

definition call_b :: SessionCall where
  "call_b = \<lparr>callNow = 1000, callSender = sender_u1, callForceNew = False, callTimeout = 1800000\<rparr>"

definition oldIds :: "jsstring list" where
  "oldIds = map (\<lambda>i. [of_nat i]) [1..<100]"

definition fullStore :: processedMessages where
  "fullStore = fmap_of_list (map (\<lambda>k. (k, 0)) oldIds)"

definition freshId :: jsstring where
  "freshId = ascii ''msg-new''"

definition card1 :: AICardInstance where
  "card1 = \<lparr>cardInstanceId = ascii ''card_1'', accessToken = ascii ''tok'', inputingStarted = False\<rparr>"

definition card2 :: AICardInstance where
  "card2 = \<lparr>cardInstanceId = ascii ''card_2'', accessToken = ascii ''tok'', inputingStarted = False\<rparr>"

definition testConfig :: DingtalkAccountConfig where
  "testConfig = \<lparr>clientId = Some (ascii ''test-client-id''),
                  clientSecret = Some (ascii ''test-client-secret''), sessionTimeout = None\<rparr>"

text \<open>
  Two dispatchers, for a direct chat and for a group, with a limit of four code units and
  the chunker modelled from the spec.
\<close>

definition directEnv :: DispatcherEnv where
  "directEnv =
     \<lparr>accountConfig = testConfig, isDirect = True, replySenderId = ascii ''user_1'',
      replyConversationId = ascii ''conv_1'', textChunkLimit = 4, chunkMode = ascii ''length'',
      chunkTextWithMode = specChunkText\<rparr>"


text \<open>
  Three environments: no OAPI token and every remote call succeeds; the same with card
  creation returning \<open>null\<close>; and the first with an OAPI token.
\<close>

definition cardEnv :: SendEnv where
  "cardEnv =
     \<lparr>oapiToken = None,
      uploadMediaToDingTalk = (\<lambda>n path. Some (ascii ''media_1'')),
      createAICardForTarget = (\<lambda>target. Fulfilled (Some card1)),
      finishAICard = (\<lambda>c content. Fulfilled ()),
      getAccessToken = Fulfilled (ascii ''mock-access-token''),
      postBatchSend = (\<lambda>ids k p. Fulfilled (Some \<lparr>respProcessQueryKey = Some (ascii ''batch-key''),
                                                   respMessage = None\<rparr>)),
      postGroupSend = (\<lambda>g k p. Fulfilled (Some \<lparr>respProcessQueryKey = Some (ascii ''group-key''),
                                                 respMessage = None\<rparr>)),
      jsonParses = (\<lambda>content. False)\<rparr>"

definition noCardEnv :: SendEnv where
  "noCardEnv = cardEnv\<lparr>createAICardForTarget := (\<lambda>target. Fulfilled None)\<rparr>"

definition tokenEnv :: SendEnv where
  "tokenEnv = cardEnv\<lparr>oapiToken := Some (ascii ''mock-oapi-token'')\<rparr>"

definition okNoCard :: SendResult where
  "okNoCard = \<lparr>ok = True, processQueryKey = None, resultCardInstanceId = None, error = None,
               usedAICard = Some False\<rparr>"

definition resetEvent :: DingTalkEvent where
  "resetEvent =
     \<lparr>msgtype = Some (ascii ''text''), eventText = Some (ascii '' /new ''), richText = None,
      recognition = None, fileName = None, conversationType = Some (ascii ''1''),
      senderStaffId = Some (ascii ''staff_1''), eventSenderId = ascii ''sender_1'',
      senderNick = Some (ascii ''Ann''), eventConversationId = ascii ''conv_1'',
      msgId = Some (ascii ''m1'')\<rparr>"

definition helloEvent :: DingTalkEvent where
  "helloEvent = resetEvent\<lparr>eventText := Some (ascii ''hello'')\<rparr>"

definition liveEnv :: HandlerEnv where
  "liveEnv = \<lparr>runtimeInitialized = True, toLowerCaseFn = asciiLower,
               computeCommandAuthorized = (\<lambda>t. False), dispatchOutcome = Fulfilled ()\<rparr>"


definition hello :: jsstring where
  "hello = ascii ''Hello''"

definition oneSpace :: jsstring where
  "oneSpace = ascii '' ''"

definition noTarget :: ProactiveTarget where
  "noTarget = \<lparr>targetUserId = None, targetUserIds = None, targetOpenConversationId = None\<rparr>"


section \<open>Properties of the session store\<close>

lemma digits_nonempty: "digits n \<noteq> []"
  by (subst digits.simps) simp

lemma unat_digit: "d < 10 \<Longrightarrow> unat (digit d) = 48 + d"
  unfolding digit_def
  by (simp only: unat_of_nat) (simp add: take_bit_nat_eq_self)

lemma digit_inj: "a < 10 \<Longrightarrow> b < 10 \<Longrightarrow> digit a = digit b \<Longrightarrow> a = b"
proof -
  assume a: "a < 10" and b: "b < 10" and e: "digit a = digit b"
  from e have "unat (digit a) = unat (digit b)" by (rule arg_cong)
  then have "48 + a = 48 + b" by (simp only: unat_digit[OF a] unat_digit[OF b])
  then show "a = b" by (rule add_left_imp_eq)
qed

lemma digit_ne_minus: "d < 10 \<Longrightarrow> digit d \<noteq> 0x2D"
proof
  assume d: "d < 10" and e: "digit d = 0x2D"
  from e have "unat (digit d) = unat (0x2D :: 16 word)" by (rule arg_cong)
  then have "48 + d = unat (0x2D :: 16 word)" by (simp only: unat_digit[OF d])
  also have "unat (0x2D :: 16 word) = 45" by simp
  finally show False by simp
qed

lemma digits_inj: "digits n = digits m \<Longrightarrow> n = m"
proof (induction n arbitrary: m rule: digits.induct)
  case (1 n)
  show ?case
  proof (cases "n < 10")
    case True
    show ?thesis
    proof (cases "m < 10")
      case True
      with \<open>n < 10\<close> "1.prems" show ?thesis by (simp add: digit_inj)
    next
      case False
      with \<open>n < 10\<close> "1.prems" digits_nonempty[of "m div 10"] show ?thesis
        by (subst (asm) (2) digits.simps) (simp)
    qed
  next
    case False
    show ?thesis
    proof (cases "m < 10")
      case True
      with False "1.prems" digits_nonempty[of "n div 10"] show ?thesis
        by (subst (asm) (1) digits.simps) (simp)
    next
      case mf: False
      from False mf "1.prems" have e: "digits (n div 10) @ [digit (n mod 10)] = digits (m div 10) @ [digit (m mod 10)]"
        by (subst (asm) (2) digits.simps, subst (asm) (1) digits.simps) simp
      then have "digits (n div 10) = digits (m div 10)" and "digit (n mod 10) = digit (m mod 10)" by simp_all
      with "1.IH"[OF False] have "n div 10 = m div 10" "n mod 10 = m mod 10"
        by (auto intro: digit_inj)
      then show ?thesis by (metis div_mult_mod_eq)
    qed
  qed
qed

lemma hd_digits_ne_minus: "hd (digits n) \<noteq> 0x2D"
proof (induction n rule: digits.induct)
  case (1 n)
  show ?case
  proof (cases "n < 10")
    case True
    then show ?thesis by (subst digits.simps) (simp add: digit_ne_minus)
  next
    case False
    with "1.IH" digits_nonempty[of "n div 10"] show ?thesis
      by (subst digits.simps) (simp)
  qed
qed

lemma numberToString_inj: "numberToString a = numberToString b \<Longrightarrow> a = b"
proof -
  assume e: "numberToString a = numberToString b"
  have ne: "\<And>n m. (0x2D :: 16 word) # digits n \<noteq> digits m"
  proof
    fix n m assume "(0x2D :: 16 word) # digits n = digits m"
    then have "hd (digits m) = 0x2D" by (metis list.sel(1))
    then show False using hd_digits_ne_minus by blast
  qed
  show ?thesis
  proof (cases "a < 0")
    case True
    show ?thesis
    proof (cases "b < 0")
      case True
      with \<open>a < 0\<close> e have "digits (nat (- a)) = digits (nat (- b))" by (simp add: numberToString_def)
      then have "nat (- a) = nat (- b)" by (rule digits_inj)
      with True \<open>a < 0\<close> show ?thesis by simp
    next
      case False
      with \<open>a < 0\<close> e ne show ?thesis by (simp add: numberToString_def)
    qed
  next
    case False
    show ?thesis
    proof (cases "b < 0")
      case True
      with False e ne[of "nat (- b)" "nat a"] show ?thesis by (simp add: numberToString_def)
    next
      case bf: False
      with False e have "digits (nat a) = digits (nat b)" by (simp add: numberToString_def)
      then have "nat a = nat b" by (rule digits_inj)
      with False bf show ?thesis by simp
    qed
  qed
qed

lemma rotatedSessionId_inj: "rotatedSessionId s a = rotatedSessionId s b \<Longrightarrow> a = b"
  by (simp add: rotatedSessionId_def numberToString_inj)

lemma initial_ne_rotated: "initialSessionId s \<noteq> rotatedSessionId s t"
  by (simp add: initialSessionId_def rotatedSessionId_def ascii_def)

lemma keysFrom_mono: "T \<subseteq> T' \<Longrightarrow> keysFrom s T \<subseteq> keysFrom s T'"
  by (auto simp: keysFrom_def)

lemma getSessionKey_other_sender:
  assumes "s' \<noteq> s" and "getSessionKey now s' f tm sessions = (r, sessions')"
  shows "sessions' s = sessions s"
  using assms
  by (auto simp: getSessionKey_def Let_def split: if_splits option.splits)

lemma keysReturnedFor_Cons:
  "keysReturnedFor s ((s', r) # rs) = (if s' = s then insert (sessionKey r) (keysReturnedFor s rs) else keysReturnedFor s rs)"
  by (auto simp: keysReturnedFor_def)

lemma getSessionKey_rotation_step:
  assumes "storeWithin s T sessions" and "getSessionKey now s f tm sessions = (r, sessions')"
  shows "storeWithin s (T \<union> (if isNew r then {now} else {})) sessions'
         \<and> sessionKey r \<in> keysFrom s (T \<union> (if isNew r then {now} else {}))"
  using assms
  by (auto simp: getSessionKey_def storeWithin_def keysFrom_def Let_def split: if_splits option.splits)

lemma getSessionKey_isNew_key:
  "getSessionKey now s f tm sessions = (r, sessions') \<Longrightarrow> isNew r \<Longrightarrow>
   sessionKey r = rotatedSessionId s now"
  by (auto simp: getSessionKey_def Let_def split: if_splits option.splits)

lemma rotationReadings_Nil: "rotationReadings s [] rs = {}"
  by (simp add: rotationReadings_def)

lemma rotationReadings_Cons:
  "rotationReadings s (c # cs) ((s', r) # rs) =
     (if callSender c = s \<and> s' = s \<and> isNew r then {callNow c} else {}) \<union> rotationReadings s cs rs"
  by (auto simp: rotationReadings_def)

lemma runSessionCalls_rotations:
  "storeWithin s T sessions \<Longrightarrow> runSessionCalls cs sessions = (rs, sessions') \<Longrightarrow>
   storeWithin s (T \<union> rotationReadings s cs rs) sessions'
   \<and> keysReturnedFor s rs \<subseteq> keysFrom s (T \<union> rotationReadings s cs rs)"
proof (induction cs arbitrary: T sessions rs sessions')
  case Nil
  then show ?case by (simp add: rotationReadings_Nil keysReturnedFor_def)
next
  case (Cons c cs)
  obtain r st1 where c1: "callSession c sessions = (r, st1)" by (cases "callSession c sessions")
  obtain rs1 st2 where c2: "runSessionCalls cs st1 = (rs1, st2)" by (cases "runSessionCalls cs st1")
  from Cons.prems(2) c1 c2 have rs: "rs = (callSender c, r) # rs1" and st: "sessions' = st2" by auto
  show ?case
  proof (cases "callSender c = s")
    case True
    let ?T1 = "T \<union> (if isNew r then {callNow c} else {})"
    from getSessionKey_rotation_step[OF Cons.prems(1), of "callNow c" "callForceNew c" "callTimeout c" r st1]
      c1 True
    have w1: "storeWithin s ?T1 st1" and k1: "sessionKey r \<in> keysFrom s ?T1"
      by (simp_all add: callSession_def)
    from Cons.IH[OF w1 c2] have w2: "storeWithin s (?T1 \<union> rotationReadings s cs rs1) st2"
      and k2: "keysReturnedFor s rs1 \<subseteq> keysFrom s (?T1 \<union> rotationReadings s cs rs1)" by simp_all
    have eq: "?T1 \<union> rotationReadings s cs rs1 = T \<union> rotationReadings s (c # cs) rs"
      using True by (auto simp: rs rotationReadings_Cons)
    have "keysFrom s ?T1 \<subseteq> keysFrom s (?T1 \<union> rotationReadings s cs rs1)"
      by (intro keysFrom_mono) auto
    with k1 have k1': "sessionKey r \<in> keysFrom s (?T1 \<union> rotationReadings s cs rs1)" by blast
    from w2 k2 k1' show ?thesis
      unfolding eq[symmetric] by (simp add: rs st keysReturnedFor_Cons True)
  next
    case False
    from getSessionKey_other_sender[of "callSender c" s "callNow c" "callForceNew c" "callTimeout c" sessions r st1] c1 False
    have "st1 s = sessions s" by (simp add: callSession_def)
    with Cons.prems(1) have w1: "storeWithin s T st1" by (simp add: storeWithin_def)
    from Cons.IH[OF w1 c2] False show ?thesis
      by (simp add: rs st keysReturnedFor_Cons rotationReadings_Cons)
  qed
qed

lemma rotated_key_returned:
  "runSessionCalls cs sessions = (rs, sessions') \<Longrightarrow> now \<in> rotationReadings s cs rs \<Longrightarrow>
   rotatedSessionId s now \<in> keysReturnedFor s rs"
proof (induction cs arbitrary: sessions rs sessions')
  case Nil
  then show ?case by (simp add: rotationReadings_Nil)
next
  case (Cons c cs)
  obtain r st1 where c1: "callSession c sessions = (r, st1)" by (cases "callSession c sessions")
  obtain rs1 st2 where c2: "runSessionCalls cs st1 = (rs1, st2)" by (cases "runSessionCalls cs st1")
  from Cons.prems(1) c1 c2 have rs: "rs = (callSender c, r) # rs1" by auto
  from Cons.prems(2) have "(callSender c = s \<and> isNew r \<and> now = callNow c) \<or> now \<in> rotationReadings s cs rs1"
    by (auto simp: rs rotationReadings_Cons split: if_splits)
  then show ?case
  proof
    assume h: "callSender c = s \<and> isNew r \<and> now = callNow c"
    from c1 have "getSessionKey (callNow c) (callSender c) (callForceNew c) (callTimeout c) sessions = (r, st1)"
      by (simp add: callSession_def)
    from getSessionKey_isNew_key[OF this] h have "sessionKey r = rotatedSessionId s now" by simp
    with h show ?thesis by (simp add: rs keysReturnedFor_Cons)
  next
    assume "now \<in> rotationReadings s cs rs1"
    from Cons.IH[OF c2 this] show ?thesis by (simp add: rs keysReturnedFor_Cons)
  qed
qed

lemma forced_key_fresh_iff:
  assumes "runSessionCalls cs Map.empty = (rs, sessions)"
  shows "rotatedSessionId s now \<in> keysReturnedFor s rs \<longleftrightarrow> now \<in> rotationReadings s cs rs"
proof
  assume a: "rotatedSessionId s now \<in> keysReturnedFor s rs"
  have "storeWithin s {} Map.empty" by (simp add: storeWithin_def)
  from runSessionCalls_rotations[OF this assms] a
  have "rotatedSessionId s now \<in> keysFrom s (rotationReadings s cs rs)" by auto
  then show "now \<in> rotationReadings s cs rs"
    using initial_ne_rotated[of s now] rotatedSessionId_inj[of s now]
    by (auto simp: keysFrom_def)
next
  assume "now \<in> rotationReadings s cs rs"
  from rotated_key_returned[OF assms this] show "rotatedSessionId s now \<in> keysReturnedFor s rs" .
qed

lemma getSessionKey_isNew_iff:
  "isNew (fst (getSessionKey now s f tm sessions))
     \<longleftrightarrow> f \<or> (\<exists>ex. sessions s = Some ex \<and> tm < now - lastActivity ex)"
  by (auto simp: getSessionKey_def Let_def split: option.splits)

text \<open>
  Claim C1 (as amended). For every sender \<open>s\<close>, \<open>getSessionKey(s, true, timeout)\<close> returns
  \<open>isNew = true\<close> and the key \<open>dingtalk-connector:<s>:<now>\<close>, and stores it as the session
  of \<open>s\<close>. In a history that starts from the empty store, this key is among the keys
  returned for \<open>s\<close> before exactly when an earlier call for \<open>s\<close> rotated the session (returned
  \<open>isNew = true\<close>: a forced call, or a call that found the session expired) at the same clock
  reading; earlier calls for \<open>s\<close> that created or reused the session do not matter, whatever
  their reading. A further forced rotation returns the same key again exactly when it
  observes the same reading.
\<close>

theorem forced_rotation_key:
  assumes "runSessionCalls cs Map.empty = (rs, sessions)"
    and "getSessionKey now s True timeout sessions = (r, sessions')"
  shows "isNew r \<and> sessionKey r = rotatedSessionId s now
         \<and> sessions' s = Some \<lparr>lastActivity = now, sessionId = rotatedSessionId s now\<rparr>
         \<and> (sessionKey r \<in> keysReturnedFor s rs \<longleftrightarrow> now \<in> rotationReadings s cs rs)
         \<and> (sessionKey (fst (getSessionKey now2 s True timeout' sessions')) = sessionKey r
              \<longleftrightarrow> now2 = now)
         \<and> (isNew (fst (getSessionKey now3 s3 f tm sessions3))
              \<longleftrightarrow> f \<or> (\<exists>ex. sessions3 s3 = Some ex \<and> tm < now3 - lastActivity ex))"
proof -
  from assms(2) have r: "r = \<lparr>sessionKey = rotatedSessionId s now, isNew = True\<rparr>"
    and s': "sessions' = sessions(s \<mapsto> \<lparr>lastActivity = now, sessionId = rotatedSessionId s now\<rparr>)"
    by (auto simp: getSessionKey_def Let_def)
  from r have c1: "isNew r" and c2: "sessionKey r = rotatedSessionId s now" by simp_all
  from s' have c3: "sessions' s = Some \<lparr>lastActivity = now, sessionId = rotatedSessionId s now\<rparr>"
    by simp
  have c4: "sessionKey r \<in> keysReturnedFor s rs \<longleftrightarrow> now \<in> rotationReadings s cs rs"
    unfolding c2 by (rule forced_key_fresh_iff[OF assms(1)])
  have k: "sessionKey (fst (getSessionKey now2 s True timeout' sessions')) = rotatedSessionId s now2"
    by (simp add: getSessionKey_def Let_def)
  have c5: "sessionKey (fst (getSessionKey now2 s True timeout' sessions')) = sessionKey r
              \<longleftrightarrow> now2 = now"
    unfolding k c2 using rotatedSessionId_inj[of s now2 now] by blast
  note c6 = getSessionKey_isNew_iff[of now3 s3 f tm sessions3]
  from c1 c2 c3 c4 c5 c6 show ?thesis by (intro conjI)
qed

lemma run_call_a:
  "runSessionCalls [call_a] Map.empty =
     ([(sender_u1, \<lparr>sessionKey = rotatedSessionId sender_u1 1000, isNew = True\<rparr>)],
      [sender_u1 \<mapsto> \<lparr>lastActivity = 1000, sessionId = rotatedSessionId sender_u1 1000\<rparr>])"
  by (simp add: call_a_def callSession_def getSessionKey_def Let_def)

lemma run_call_b:
  "runSessionCalls [call_b] Map.empty =
     ([(sender_u1, \<lparr>sessionKey = initialSessionId sender_u1, isNew = False\<rparr>)],
      [sender_u1 \<mapsto> \<lparr>lastActivity = 1000, sessionId = initialSessionId sender_u1\<rparr>])"
  by (simp add: call_b_def callSession_def getSessionKey_def Let_def)

theorem forced_rotation_key_witness:
  "runSessionCalls [call_b] Map.empty =
     ([(sender_u1, \<lparr>sessionKey = initialSessionId sender_u1, isNew = False\<rparr>)],
      [sender_u1 \<mapsto> \<lparr>lastActivity = 1000, sessionId = initialSessionId sender_u1\<rparr>])
   \<and> isNew (fst (getSessionKey 1000 sender_u1 True 1800000 (snd (runSessionCalls [call_b] Map.empty))))
   \<and> 1000 \<notin> rotationReadings sender_u1 [call_b] (fst (runSessionCalls [call_b] Map.empty))
   \<and> sessionKey (fst (getSessionKey 1000 sender_u1 True 1800000 (snd (runSessionCalls [call_b] Map.empty))))
       \<notin> keysReturnedFor sender_u1 (fst (runSessionCalls [call_b] Map.empty))
   \<and> 2000 \<notin> rotationReadings sender_u1 [call_a] (fst (runSessionCalls [call_a] Map.empty))
   \<and> sessionKey (fst (getSessionKey 2000 sender_u1 True 1800000 (snd (runSessionCalls [call_a] Map.empty))))
       \<notin> keysReturnedFor sender_u1 (fst (runSessionCalls [call_a] Map.empty))"
proof -
  have n: "1000 \<notin> rotationReadings sender_u1 [call_b] (fst (runSessionCalls [call_b] Map.empty))"
    unfolding run_call_b by (simp add: rotationReadings_def)
  have n2: "2000 \<notin> rotationReadings sender_u1 [call_a] (fst (runSessionCalls [call_a] Map.empty))"
    unfolding run_call_a by (simp add: rotationReadings_def call_a_def)
  have h1: "runSessionCalls [call_b] Map.empty
              = (fst (runSessionCalls [call_b] Map.empty), snd (runSessionCalls [call_b] Map.empty))"
    by (rule prod.collapse[symmetric])
  have h2: "getSessionKey 1000 sender_u1 True 1800000 (snd (runSessionCalls [call_b] Map.empty))
              = (fst (getSessionKey 1000 sender_u1 True 1800000 (snd (runSessionCalls [call_b] Map.empty))),
                 snd (getSessionKey 1000 sender_u1 True 1800000 (snd (runSessionCalls [call_b] Map.empty))))"
    by (rule prod.collapse[symmetric])
  have h3: "runSessionCalls [call_a] Map.empty
              = (fst (runSessionCalls [call_a] Map.empty), snd (runSessionCalls [call_a] Map.empty))"
    by (rule prod.collapse[symmetric])
  have h4: "getSessionKey 2000 sender_u1 True 1800000 (snd (runSessionCalls [call_a] Map.empty))
              = (fst (getSessionKey 2000 sender_u1 True 1800000 (snd (runSessionCalls [call_a] Map.empty))),
                 snd (getSessionKey 2000 sender_u1 True 1800000 (snd (runSessionCalls [call_a] Map.empty))))"
    by (rule prod.collapse[symmetric])
  from forced_rotation_key[OF h1 h2, of 1000 0 0 sender_u1 False 0 Map.empty]
  have w1: "isNew (fst (getSessionKey 1000 sender_u1 True 1800000 (snd (runSessionCalls [call_b] Map.empty))))"
    and w2: "sessionKey (fst (getSessionKey 1000 sender_u1 True 1800000 (snd (runSessionCalls [call_b] Map.empty))))
               \<in> keysReturnedFor sender_u1 (fst (runSessionCalls [call_b] Map.empty))
             \<longleftrightarrow> 1000 \<in> rotationReadings sender_u1 [call_b] (fst (runSessionCalls [call_b] Map.empty))"
    by blast+
  from forced_rotation_key[OF h3 h4, of 2000 0 0 sender_u1 False 0 Map.empty]
  have w3: "sessionKey (fst (getSessionKey 2000 sender_u1 True 1800000 (snd (runSessionCalls [call_a] Map.empty))))
               \<in> keysReturnedFor sender_u1 (fst (runSessionCalls [call_a] Map.empty))
             \<longleftrightarrow> 2000 \<in> rotationReadings sender_u1 [call_a] (fst (runSessionCalls [call_a] Map.empty))"
    by blast
  from w1 w2 w3 n n2 run_call_b show ?thesis by blast
qed

text \<open>
  Claim C1 as stated fails: two consecutive forced rotations for one sender that both
  observe the clock reading 1000 return the same key, so the second key is among the keys
  returned before.
\<close>

theorem forced_rotation_same_millisecond_counterexample:
  "sessionKey (fst (getSessionKey 1000 sender_u1 True 1800000 (snd (runSessionCalls [call_a] Map.empty))))
     \<in> keysReturnedFor sender_u1 (fst (runSessionCalls [call_a] Map.empty))"
  unfolding run_call_a
  by (simp add: keysReturnedFor_def getSessionKey_def Let_def)

lemma runSessionCalls_others:
  "\<forall>c \<in> set cs. callSender c \<noteq> s \<Longrightarrow> snd (runSessionCalls cs sessions) s = sessions s"
proof (induction cs arbitrary: sessions)
  case Nil
  then show ?case by simp
next
  case (Cons c cs)
  obtain r st1 where c1: "callSession c sessions = (r, st1)" by (cases "callSession c sessions")
  from Cons.prems have ne: "callSender c \<noteq> s" by simp
  from getSessionKey_other_sender[OF ne, of "callNow c" "callForceNew c" "callTimeout c" sessions r st1] c1
  have "st1 s = sessions s" by (simp add: callSession_def)
  moreover from Cons.IH[of st1] Cons.prems have "snd (runSessionCalls cs st1) s = st1 s" by simp
  ultimately show ?case using c1 by (simp add: split_beta)
qed

lemma runSessionCalls_dom:
  "dom (snd (runSessionCalls cs sessions)) = dom sessions \<union> callSender ` set cs"
proof (induction cs arbitrary: sessions)
  case Nil
  then show ?case by simp
next
  case (Cons c cs)
  have "dom (snd (callSession c sessions)) = insert (callSender c) (dom sessions)"
    by (auto simp: callSession_def getSessionKey_def Let_def split: option.splits if_splits)
  with Cons.IH[of "snd (callSession c sessions)"] show ?case
    by (simp add: split_beta)
qed

lemma first_call_no_session:
  "s \<notin> callSender ` set cs \<Longrightarrow> snd (runSessionCalls cs Map.empty) s = None"
  using runSessionCalls_dom[of cs Map.empty] by (auto simp: dom_def)

lemma getSessionKey_first:
  "sessions s = None \<Longrightarrow>
   getSessionKey now s False tm sessions =
     (\<lparr>sessionKey = initialSessionId s, isNew = False\<rparr>,
      sessions(s \<mapsto> \<lparr>lastActivity = now, sessionId = initialSessionId s\<rparr>))"
  by (simp add: getSessionKey_def Let_def)

lemma getSessionKey_within:
  "sessions s = Some ex \<Longrightarrow> now - lastActivity ex \<le> tm \<Longrightarrow>
   getSessionKey now s False tm sessions =
     (\<lparr>sessionKey = sessionId ex, isNew = False\<rparr>, sessions(s \<mapsto> ex\<lparr>lastActivity := now\<rparr>))"
  by (simp add: getSessionKey_def Let_def)

lemma getSessionKey_expired:
  "sessions s = Some ex \<Longrightarrow> now - lastActivity ex > tm \<Longrightarrow>
   getSessionKey now s False tm sessions =
     (\<lparr>sessionKey = rotatedSessionId s now, isNew = True\<rparr>,
      sessions(s \<mapsto> \<lparr>lastActivity = now, sessionId = rotatedSessionId s now\<rparr>))"
  by (simp add: getSessionKey_def Let_def)

lemma getSessionKey_stores:
  "getSessionKey now s f tm sessions = (r, sessions') \<Longrightarrow>
   sessions' s = Some \<lparr>lastActivity = now, sessionId = sessionKey r\<rparr>"
  by (auto simp: getSessionKey_def Let_def split: if_splits option.splits)

lemma two_calls_within:
  assumes "getSessionKey now1 s f tm1 sessions = (r1, st1)"
    and "\<forall>c \<in> set cs. callSender c \<noteq> s"
    and "now2 - now1 \<le> tm"
  shows "getSessionKey now2 s False tm (snd (runSessionCalls cs st1)) =
           (\<lparr>sessionKey = sessionKey r1, isNew = False\<rparr>,
            (snd (runSessionCalls cs st1))(s \<mapsto> \<lparr>lastActivity = now2, sessionId = sessionKey r1\<rparr>))"
proof -
  from getSessionKey_stores[OF assms(1)] runSessionCalls_others[OF assms(2), of st1]
  have "snd (runSessionCalls cs st1) s = Some \<lparr>lastActivity = now1, sessionId = sessionKey r1\<rparr>" by simp
  from getSessionKey_within[of "snd (runSessionCalls cs st1)" s _ now2 tm] this assms(3) show ?thesis by simp
qed

text \<open>
  Claim C4. \<open>getSessionKey(s, false, timeout)\<close>: when no call for \<open>s\<close> has been made since the
  store was empty (more generally, when \<open>s\<close> has no session) it stores and returns the key
  \<open>dingtalk-connector:<s>\<close> with \<open>isNew = false\<close>; when a session exists and
  \<open>now - lastActivity\<close> is at most the timeout it returns the existing key with
  \<open>isNew = false\<close> and refreshes \<open>lastActivity\<close>; when \<open>now - lastActivity\<close> exceeds the
  timeout it rotates to \<open>dingtalk-connector:<s>:<now>\<close> with \<open>isNew = true\<close>. Hence a second
  call within the timeout, with calls for other senders in between or not, returns the key
  of the first call and \<open>isNew = false\<close>. The rotated key differs from the stored one when
  that is the sender's initial key or a key rotated at another clock reading.
\<close>

theorem getSessionKey_without_force:
  "(s \<notin> callSender ` set cs \<longrightarrow>
      fst (getSessionKey now s False tm (snd (runSessionCalls cs Map.empty)))
        = \<lparr>sessionKey = initialSessionId s, isNew = False\<rparr>)
   \<and> (sessions s = None \<longrightarrow>
      getSessionKey now s False tm sessions =
        (\<lparr>sessionKey = initialSessionId s, isNew = False\<rparr>,
         sessions(s \<mapsto> \<lparr>lastActivity = now, sessionId = initialSessionId s\<rparr>)))
   \<and> (sessions s = Some ex \<and> now - lastActivity ex \<le> tm \<longrightarrow>
      getSessionKey now s False tm sessions =
        (\<lparr>sessionKey = sessionId ex, isNew = False\<rparr>, sessions(s \<mapsto> ex\<lparr>lastActivity := now\<rparr>)))
   \<and> (sessions s = Some ex \<and> now - lastActivity ex > tm \<longrightarrow>
      getSessionKey now s False tm sessions =
        (\<lparr>sessionKey = rotatedSessionId s now, isNew = True\<rparr>,
         sessions(s \<mapsto> \<lparr>lastActivity = now, sessionId = rotatedSessionId s now\<rparr>)))
   \<and> ((\<forall>c \<in> set others. callSender c \<noteq> s) \<and> now2 - now \<le> tm \<longrightarrow>
      fst (getSessionKey now2 s False tm
             (snd (runSessionCalls others (snd (getSessionKey now s False tm sessions)))))
        = \<lparr>sessionKey = sessionKey (fst (getSessionKey now s False tm sessions)), isNew = False\<rparr>)
   \<and> (sessionId ex = initialSessionId s \<or> (sessionId ex = rotatedSessionId s t0 \<and> t0 \<noteq> now)
        \<longrightarrow> rotatedSessionId s now \<noteq> sessionId ex)"
proof -
  have f: "sessionId ex = initialSessionId s \<or> (sessionId ex = rotatedSessionId s t0 \<and> t0 \<noteq> now)
        \<longrightarrow> rotatedSessionId s now \<noteq> sessionId ex"
    using initial_ne_rotated[of s now] rotatedSessionId_inj[of s now t0] by auto
  have a: "s \<notin> callSender ` set cs \<longrightarrow>
      fst (getSessionKey now s False tm (snd (runSessionCalls cs Map.empty)))
        = \<lparr>sessionKey = initialSessionId s, isNew = False\<rparr>"
    using first_call_no_session[of s cs] by (simp add: getSessionKey_first)
  have e: "(\<forall>c \<in> set others. callSender c \<noteq> s) \<and> now2 - now \<le> tm \<longrightarrow>
      fst (getSessionKey now2 s False tm
             (snd (runSessionCalls others (snd (getSessionKey now s False tm sessions)))))
        = \<lparr>sessionKey = sessionKey (fst (getSessionKey now s False tm sessions)), isNew = False\<rparr>"
  proof
    assume h: "(\<forall>c \<in> set others. callSender c \<noteq> s) \<and> now2 - now \<le> tm"
    obtain r1 st1 where g: "getSessionKey now s False tm sessions = (r1, st1)"
      by (cases "getSessionKey now s False tm sessions")
    from two_calls_within[OF g, of others now2 tm] h show
      "fst (getSessionKey now2 s False tm
             (snd (runSessionCalls others (snd (getSessionKey now s False tm sessions)))))
        = \<lparr>sessionKey = sessionKey (fst (getSessionKey now s False tm sessions)), isNew = False\<rparr>"
      by (simp add: g)
  qed
  from a e f show ?thesis
    using getSessionKey_first[of sessions s now tm] getSessionKey_within[of sessions s ex now tm]
      getSessionKey_expired[of sessions s ex tm now]
    by blast
qed

theorem getSessionKey_without_force_witness:
  "sender_u1 \<notin> callSender ` set ([] :: SessionCall list)
   \<and> fst (getSessionKey 1000 sender_u1 False 1800000 (snd (runSessionCalls [] Map.empty)))
        = \<lparr>sessionKey = initialSessionId sender_u1, isNew = False\<rparr>
   \<and> 1500 - (1000::int) \<le> 1800000
   \<and> fst (getSessionKey 1500 sender_u1 False 1800000
             (snd (runSessionCalls [] (snd (getSessionKey 1000 sender_u1 False 1800000 Map.empty)))))
        = \<lparr>sessionKey = initialSessionId sender_u1, isNew = False\<rparr>
   \<and> fst (getSessionKey 1801001 sender_u1 False 1800000
             (snd (getSessionKey 1000 sender_u1 False 1800000 Map.empty)))
        = \<lparr>sessionKey = rotatedSessionId sender_u1 1801001, isNew = True\<rparr>"
  using getSessionKey_without_force[where s = sender_u1 and cs = "[]" and now = 1000
      and tm = 1800000 and sessions = Map.empty and others = "[]" and ?now2.0 = 1500
      and ex = "\<lparr>lastActivity = 1000, sessionId = initialSessionId sender_u1\<rparr>" and ?t0.0 = 0]
    getSessionKey_without_force[where s = sender_u1 and cs = "[]" and now = 1801001
      and tm = 1800000 and sessions = "snd (getSessionKey 1000 sender_u1 False 1800000 Map.empty)"
      and ex = "\<lparr>lastActivity = 1000, sessionId = initialSessionId sender_u1\<rparr>"
      and others = "[]" and ?now2.0 = 0 and ?t0.0 = 0]
  by (simp add: getSessionKey_def Let_def)


section \<open>Properties of the de-duplication cache\<close>

lemma isMessageProcessed_empty_id: "isMessageProcessed [] pm = False"
  by (simp add: isMessageProcessed_def)

lemma markMessageProcessed_empty_id: "markMessageProcessed now sweepNow [] pm = pm"
  by (simp add: markMessageProcessed_def)

lemma lookup_cleanup:
  "fmlookup (cleanupProcessedMessages sweepNow pm) k =
     (case fmlookup pm k of None \<Rightarrow> None
      | Some ts \<Rightarrow> if sweepNow - ts > MESSAGE_DEDUP_TTL then None else Some ts)"
  by (simp add: cleanupProcessedMessages_def split: option.splits)

lemma lookup_mark:
  "m \<noteq> [] \<Longrightarrow>
   fmlookup (markMessageProcessed now sweepNow m pm) k =
     (if fcard (fmdom (fmupd m now pm)) \<ge> 100
      then (case fmlookup (fmupd m now pm) k of None \<Rightarrow> None
            | Some ts \<Rightarrow> if sweepNow - ts > MESSAGE_DEDUP_TTL then None else Some ts)
      else fmlookup (fmupd m now pm) k)"
  by (simp add: markMessageProcessed_def Let_def lookup_cleanup)

lemma processed_iff: "isMessageProcessed m pm \<longleftrightarrow> m \<noteq> [] \<and> fmlookup pm m \<noteq> None"
  by (auto simp: isMessageProcessed_def fmlookup_dom_iff)

lemma mark_other_keeps_unprocessed:
  "m \<noteq> m' \<Longrightarrow> \<not> isMessageProcessed m pm \<Longrightarrow>
   \<not> isMessageProcessed m (markMessageProcessed now sweepNow m' pm)"
proof (cases "m' = []")
  case True
  assume "\<not> isMessageProcessed m pm"
  with True show ?thesis by (simp add: markMessageProcessed_def)
next
  case False
  assume "m \<noteq> m'" and "\<not> isMessageProcessed m pm"
  then show ?thesis
    by (auto simp: processed_iff lookup_mark[OF False] split: option.splits if_splits)
qed

lemma runMarks_others_unprocessed:
  "\<forall>c \<in> set cs. markId c \<noteq> m \<Longrightarrow> \<not> isMessageProcessed m pm \<Longrightarrow>
   \<not> isMessageProcessed m (runMarks cs pm)"
proof (induction cs arbitrary: pm)
  case Nil
  then show ?case by simp
next
  case (Cons c cs)
  from Cons.prems have "m \<noteq> markId c" by auto
  from mark_other_keeps_unprocessed[OF this Cons.prems(2)]
  have "\<not> isMessageProcessed m (markMessageProcessed (markNow c) (markSweepNow c) (markId c) pm)" .
  with Cons.IH Cons.prems(1) show ?case by simp
qed

lemma mark_then_processed_iff:
  "m \<noteq> [] \<Longrightarrow>
   isMessageProcessed m (markMessageProcessed now sweepNow m pm)
     \<longleftrightarrow> fcard (fmdom (fmupd m now pm)) < 100 \<or> sweepNow - now \<le> MESSAGE_DEDUP_TTL"
  by (auto simp: processed_iff lookup_mark)

lemma mark_below_threshold:
  "m \<noteq> [] \<Longrightarrow> fcard (fmdom (fmupd m now pm)) < 100 \<Longrightarrow>
   markMessageProcessed now sweepNow m pm = fmupd m now pm"
  by (simp add: markMessageProcessed_def Let_def)

lemma mark_at_threshold:
  "m \<noteq> [] \<Longrightarrow> fcard (fmdom (fmupd m now pm)) \<ge> 100 \<Longrightarrow>
   fmlookup (markMessageProcessed now sweepNow m pm) k =
     (case fmlookup (fmupd m now pm) k of None \<Rightarrow> None
      | Some ts \<Rightarrow> if sweepNow - ts > MESSAGE_DEDUP_TTL then None else Some ts)"
  by (simp add: lookup_mark)

lemma evicted_only_by_sweep:
  assumes "isMessageProcessed k pm"
    and "\<not> isMessageProcessed k (markMessageProcessed now sweepNow m pm)"
  shows "fcard (fmdom (fmupd m now pm)) \<ge> 100
         \<and> (\<exists>ts. fmlookup (fmupd m now pm) k = Some ts \<and> sweepNow - ts > MESSAGE_DEDUP_TTL)"
proof (cases "m = []")
  case True
  with assms show ?thesis by (simp add: markMessageProcessed_def)
next
  case False
  from assms show ?thesis
    by (auto simp: processed_iff lookup_mark[OF False] split: option.splits if_splits)
qed

text \<open>
  Claim C5 (as amended). For the empty id \<open>isMessageProcessed\<close> is false and
  \<open>markMessageProcessed\<close> changes nothing. An id that was never marked since the cache was
  empty is not processed. The sweep runs exactly when the size after the insertion is at
  least 100; it reads the clock itself and removes exactly the entries whose age at that
  reading exceeds \<open>MESSAGE_DEDUP_TTL\<close> = 300000 ms. After \<open>markMessageProcessed(m)\<close> a
  non-empty \<open>m\<close> is processed exactly when no sweep ran or the sweep's reading is at most
  the TTL after the reading stored with \<open>m\<close>; so a freshly inserted id survives the sweep
  its insertion triggers unless more than the TTL passes between the two clock readings
  of the call. An id that was processed stops being so only by such a sweep.
\<close>

theorem dedup_cache:
  "isMessageProcessed [] pm = False
   \<and> markMessageProcessed now sweepNow [] pm = pm
   \<and> ((\<forall>c \<in> set cs. markId c \<noteq> m) \<longrightarrow> \<not> isMessageProcessed m (runMarks cs fmempty))
   \<and> (m \<noteq> [] \<longrightarrow>
        (isMessageProcessed m (markMessageProcessed now sweepNow m pm)
           \<longleftrightarrow> fcard (fmdom (fmupd m now pm)) < 100 \<or> sweepNow - now \<le> MESSAGE_DEDUP_TTL))
   \<and> (m \<noteq> [] \<and> fcard (fmdom (fmupd m now pm)) < 100 \<longrightarrow>
        markMessageProcessed now sweepNow m pm = fmupd m now pm)
   \<and> (m \<noteq> [] \<and> fcard (fmdom (fmupd m now pm)) \<ge> 100 \<longrightarrow>
        fmlookup (markMessageProcessed now sweepNow m pm) k =
          (case fmlookup (fmupd m now pm) k of None \<Rightarrow> None
           | Some ts \<Rightarrow> if sweepNow - ts > MESSAGE_DEDUP_TTL then None else Some ts))
   \<and> (isMessageProcessed k pm \<and> \<not> isMessageProcessed k (markMessageProcessed now sweepNow m pm) \<longrightarrow>
        fcard (fmdom (fmupd m now pm)) \<ge> 100
        \<and> (\<exists>ts. fmlookup (fmupd m now pm) k = Some ts \<and> sweepNow - ts > MESSAGE_DEDUP_TTL))"
proof -
  have "\<not> isMessageProcessed m fmempty" by (simp add: isMessageProcessed_def)
  then have c: "(\<forall>c \<in> set cs. markId c \<noteq> m) \<longrightarrow> \<not> isMessageProcessed m (runMarks cs fmempty)"
    using runMarks_others_unprocessed[of cs m fmempty] by blast
  show ?thesis
    using isMessageProcessed_empty_id[of pm] markMessageProcessed_empty_id[of now sweepNow pm] c
      mark_then_processed_iff[of m now sweepNow pm] mark_below_threshold[of m now pm sweepNow]
      mark_at_threshold[of m now pm sweepNow k] evicted_only_by_sweep[of k pm now sweepNow m]
    by blast
qed

lemma distinct_oldIds: "distinct oldIds"
proof -
  have "inj_on (\<lambda>i::nat. [of_nat i :: 16 word]) {1..<100}"
  proof (rule inj_onI)
    fix x y :: nat assume x: "x \<in> {1..<100}" and y: "y \<in> {1..<100}" and e: "[of_nat x :: 16 word] = [of_nat y]"
    from e have "(of_nat x :: 16 word) = of_nat y" by simp
    then have "unat (of_nat x :: 16 word) = unat (of_nat y :: 16 word)" by (rule arg_cong)
    then have "x mod 2 ^ LENGTH(16) = y mod 2 ^ LENGTH(16)" by (simp only: unat_of_nat)
    with x y show "x = y" by simp
  qed
  then show ?thesis by (simp add: oldIds_def distinct_map)
qed

lemma fmdom_fullStore: "fmdom fullStore = fset_of_list oldIds"
  by (simp add: fullStore_def comp_def)

lemma fcard_fullStore: "fcard (fmdom fullStore) = 99"
proof -
  have "fcard (fset_of_list oldIds) = card (set oldIds)"
    by (simp add: fcard.rep_eq fset_of_list.rep_eq)
  also have "\<dots> = length oldIds" using distinct_oldIds by (rule distinct_card)
  also have "\<dots> = 99" by (simp add: oldIds_def)
  finally show ?thesis by (simp add: fmdom_fullStore)
qed

lemma freshId_not_old: "freshId |\<notin>| fmdom fullStore"
  by (auto simp: fmdom_fullStore fset_of_list.rep_eq oldIds_def freshId_def ascii_def)

lemma fcard_after_insert: "fcard (fmdom (fmupd freshId t fullStore)) = 100"
  using freshId_not_old by (simp add: fcard_fullStore fcard_finsert_disjoint)

lemma map_of_const: "k \<in> set ks \<Longrightarrow> map_of (map (\<lambda>k. (k, v)) ks) k = Some v"
  by (induction ks) auto

lemma lookup_old: "fmlookup fullStore [1] = Some 0"
proof -
  have "[1 :: 16 word] \<in> set oldIds"
    by (auto simp: oldIds_def intro!: image_eqI[where x = 1])
  then show ?thesis by (simp add: fullStore_def fmlookup_of_list map_of_const)
qed

text \<open>
  Claim C5 as stated fails in its last part: with 99 ids in the cache, an insertion that
  reads the clock at 0 and whose sweep reads it at 300001 removes the id it has just
  inserted.
\<close>

theorem fresh_id_evicted_counterexample:
  "freshId \<noteq> [] \<and> fcard (fmdom (fmupd freshId 0 fullStore)) \<ge> 100
   \<and> \<not> isMessageProcessed freshId (markMessageProcessed 0 300001 freshId fullStore)"
proof -
  have ne: "freshId \<noteq> []" by (simp add: freshId_def ascii_def)
  have full: "fcard (fmdom (fmupd freshId 0 fullStore)) \<ge> 100"
    using fcard_after_insert[of 0] by (simp only: order_refl)
  have "\<not> ((300001::int) - 0 \<le> MESSAGE_DEDUP_TTL)" by (simp add: MESSAGE_DEDUP_TTL_def)
  with full have "\<not> isMessageProcessed freshId (markMessageProcessed 0 300001 freshId fullStore)"
    by (simp add: mark_then_processed_iff[OF ne])
  with ne full show ?thesis by simp
qed

theorem dedup_cache_witness:
  "freshId \<noteq> [] \<and> (400000::int) - 400000 \<le> MESSAGE_DEDUP_TTL
   \<and> isMessageProcessed freshId (markMessageProcessed 400000 400000 freshId fullStore)
   \<and> fcard (fmdom (fmupd freshId 400000 fullStore)) \<ge> 100
   \<and> fmlookup (markMessageProcessed 400000 400000 freshId fullStore) [1] = None
   \<and> fcard (fmdom (fmupd freshId 1000 (fmempty :: processedMessages))) < 100
   \<and> markMessageProcessed 1000 1000 freshId fmempty = fmupd freshId 1000 fmempty
   \<and> isMessageProcessed freshId (markMessageProcessed 1000 900000 freshId fmempty)"
proof -
  have ne: "freshId \<noteq> []" by (simp add: freshId_def ascii_def)
  have ttl: "(400000::int) - 400000 \<le> MESSAGE_DEDUP_TTL" by (simp add: MESSAGE_DEDUP_TTL_def)
  have small: "fcard (fmdom (fmupd freshId 1000 (fmempty :: processedMessages))) < 100"
    by (simp add: fcard_finsert_if fcard_fempty)
  have old: "fmlookup (fmupd freshId 400000 fullStore) [1] = Some 0"
    using lookup_old by (simp add: freshId_def ascii_def)
  have age: "(400000::int) - 0 > MESSAGE_DEDUP_TTL" by (simp add: MESSAGE_DEDUP_TTL_def)
  have full: "fcard (fmdom (fmupd freshId 400000 fullStore)) \<ge> 100"
    using fcard_after_insert[of 400000] by (simp only: order_refl)
  from dedup_cache[where pm = fullStore and now = 400000 and sweepNow = 400000 and cs = "[]"
      and m = freshId and k = "[1]"] ne ttl full old age
  have w1: "isMessageProcessed freshId (markMessageProcessed 400000 400000 freshId fullStore)
            \<and> fmlookup (markMessageProcessed 400000 400000 freshId fullStore) [1] = None"
    by simp
  from dedup_cache[where pm = fmempty and now = 1000 and sweepNow = 1000 and cs = "[]"
      and m = freshId and k = "[1]"] ne small
  have w2: "markMessageProcessed 1000 1000 freshId fmempty = fmupd freshId 1000 fmempty"
    by blast
  from dedup_cache[where pm = fmempty and now = 1000 and sweepNow = 900000 and cs = "[]"
      and m = freshId and k = "[1]"] ne small
  have w3: "isMessageProcessed freshId (markMessageProcessed 1000 900000 freshId fmempty)"
    by blast
  from ne ttl full small w1 w2 w3 show ?thesis by simp
qed


section \<open>Properties of the gateway stop handlers and of trimming\<close>

lemma dropWhile_all_iff: "(\<forall>x \<in> set (dropWhile P xs). P x) \<longleftrightarrow> (\<forall>x \<in> set xs. P x)"
  by (induction xs) auto

lemma js_trim_empty_iff: "js_trim s = [] \<longleftrightarrow> blank s"
proof -
  have "js_trim s = [] \<longleftrightarrow> dropWhile isWhiteSpace (rev (dropWhile isWhiteSpace s)) = []"
    by (simp add: js_trim_def)
  also have "\<dots> \<longleftrightarrow> (\<forall>x \<in> set (rev (dropWhile isWhiteSpace s)). isWhiteSpace x)"
    by (rule dropWhile_eq_Nil_conv)
  also have "\<dots> \<longleftrightarrow> (\<forall>x \<in> set (dropWhile isWhiteSpace s). isWhiteSpace x)"
    by simp
  also have "\<dots> \<longleftrightarrow> (\<forall>x \<in> set s. isWhiteSpace x)"
    by (rule dropWhile_all_iff)
  also have "\<dots> \<longleftrightarrow> blank s"
    by (simp add: blank_def list_all_iff)
  finally show ?thesis .
qed

lemma stopped_stays: "runStopSignals h sgs True = (True, [])"
proof (induction sgs)
  case Nil
  then show ?case by simp
next
  case (Cons sg sgs)
  have "handleStopSignal h sg True = (True, [])"
    by (cases sg) (simp_all add: stop_def onAbort_def)
  with Cons.IH show ?case by simp
qed

lemma first_effective: "effective h sg \<Longrightarrow> handleStopSignal h sg False = (True, [ClientDisconnect, ActivityRecord])"
  by (cases sg) (simp_all add: stop_def onAbort_def)

lemma ineffective_noop: "\<not> effective h sg \<Longrightarrow> handleStopSignal h sg st = (st, [])"
  by (cases sg) (simp_all add: stop_def onAbort_def)

lemma run_effective:
  "\<exists>sg \<in> set sgs. effective h sg \<Longrightarrow>
   runStopSignals h sgs False = (True, [ClientDisconnect, ActivityRecord])"
proof (induction sgs)
  case Nil
  then show ?case by simp
next
  case (Cons sg sgs)
  show ?case
  proof (cases "effective h sg")
    case True
    then show ?thesis by (simp add: first_effective stopped_stays)
  next
    case False
    with Cons.prems have "\<exists>sg \<in> set sgs. effective h sg" by simp
    with Cons.IH False show ?thesis by (simp add: ineffective_noop)
  qed
qed

lemma startAccount_started:
  "startAccount rt cid secret oc = (es, Inr b) \<Longrightarrow>
   \<not> b \<and> es = [ClientConnect, ActivityRecord] \<and> rt \<and> truthy cid \<and> truthy secret \<and> oc = Fulfilled ()"
  by (auto simp: startAccount_def split: if_splits settled.splits)

text \<open>
  Claim C7. \<open>startAccount\<close> returns its \<open>stop\<close> function only when the credentials are set,
  the connection succeeded and the runtime is set; it has then connected and recorded
  activity once, and the flag \<open>stopped\<close> is false. (With the runtime unset it throws after
  the connection, without a record and without returning \<open>stop\<close>.) For a started account
  the first stop call or abort event disconnects the client and records activity; with
  the flag set, every stop call or abort event does nothing. So whatever the sequence of
  stop calls and abort events, as soon as it holds one that reaches a handler, the stop
  side disconnects once and records activity exactly once.
\<close>

theorem stop_side_record_once:
  "(startAccount rt cid secret oc = (es, Inr b) \<longrightarrow>
      \<not> b \<and> es = [ClientConnect, ActivityRecord] \<and> rt \<and> truthy cid \<and> truthy secret
      \<and> oc = Fulfilled ())
   \<and> (truthy cid \<and> truthy secret \<longrightarrow>
        startAccount True cid secret (Fulfilled ()) = ([ClientConnect, ActivityRecord], Inr False)
        \<and> startAccount False cid secret (Fulfilled ())
            = ([ClientConnect], Inl GatewayRuntimeNotInitialized))
   \<and> (effective h sg \<longrightarrow> handleStopSignal h sg False = (True, [ClientDisconnect, ActivityRecord]))
   \<and> handleStopSignal h sg True = (True, [])
   \<and> ((\<exists>x \<in> set sgs. effective h x) \<longrightarrow>
        runStopSignals h sgs False = (True, [ClientDisconnect, ActivityRecord])
        \<and> length (filter (\<lambda>e. e = ActivityRecord) (snd (runStopSignals h sgs False))) = 1)
   \<and> runStopSignals h sgs True = (True, [])"
proof -
  have a: "truthy cid \<and> truthy secret \<longrightarrow>
        startAccount True cid secret (Fulfilled ()) = ([ClientConnect, ActivityRecord], Inr False)
        \<and> startAccount False cid secret (Fulfilled ())
            = ([ClientConnect], Inl GatewayRuntimeNotInitialized)"
    by (simp add: startAccount_def)
  have b: "handleStopSignal h sg True = (True, [])"
    by (cases sg) (simp_all add: stop_def onAbort_def)
  have c: "(\<exists>x \<in> set sgs. effective h x) \<longrightarrow>
        runStopSignals h sgs False = (True, [ClientDisconnect, ActivityRecord])
        \<and> length (filter (\<lambda>e. e = ActivityRecord) (snd (runStopSignals h sgs False))) = 1"
    using run_effective[of sgs h] by auto
  from a b c first_effective[of h sg] stopped_stays[of h sgs]
    startAccount_started[of rt cid secret oc es b]
  show ?thesis by blast
qed

theorem stop_side_record_once_witness:
  "truthy (Some (ascii ''key'')) \<and> truthy (Some (ascii ''secret''))
   \<and> startAccount True (Some (ascii ''key'')) (Some (ascii ''secret'')) (Fulfilled ())
        = ([ClientConnect, ActivityRecord], Inr False)
   \<and> startAccount False (Some (ascii ''key'')) (Some (ascii ''secret'')) (Fulfilled ())
        = ([ClientConnect], Inl GatewayRuntimeNotInitialized)
   \<and> effective True AbortFired
   \<and> runStopSignals True [AbortFired, StopCalled, StopCalled, AbortFired] False
        = (True, [ClientDisconnect, ActivityRecord])
   \<and> length (filter (\<lambda>e. e = ActivityRecord)
               (snd (runStopSignals True [AbortFired, StopCalled, StopCalled, AbortFired] False))) = 1
   \<and> runStopSignals False [AbortFired, StopCalled, StopCalled] False
        = (True, [ClientDisconnect, ActivityRecord])"
proof -
  have t: "truthy (Some (ascii ''key''))" "truthy (Some (ascii ''secret''))"
    by (simp_all add: truthy_def ascii_def)
  have e: "effective True AbortFired" by simp
  then have x: "\<exists>x \<in> set [AbortFired, StopCalled, StopCalled, AbortFired]. effective True x"
    by simp
  have y: "\<exists>x \<in> set [AbortFired, StopCalled, StopCalled]. effective False x"
    by simp
  from stop_side_record_once[of True "Some (ascii ''key'')" "Some (ascii ''secret'')" "Fulfilled ()"
      "[ClientConnect, ActivityRecord]" False True AbortFired
      "[AbortFired, StopCalled, StopCalled, AbortFired]"]
    stop_side_record_once[of True "Some (ascii ''key'')" "Some (ascii ''secret'')" "Fulfilled ()"
      "[ClientConnect, ActivityRecord]" False False AbortFired
      "[AbortFired, StopCalled, StopCalled]"] t e x y
  show ?thesis by blast
qed


section \<open>Properties of outbound delivery\<close>

lemma mediaCalls_shape:
  "set (mediaCalls env content)
     \<subseteq> {GetOapiAccessToken, ProcessLocalImages content} \<union> range UploadMedia"
  by (auto simp: mediaCalls_def)

lemma aicard_trace_shape:
  "\<exists>rest. snd (sendAICardInternal env config tg content)
            = EnterAICard tg content # mediaCalls env content @ rest
          \<and> set rest \<subseteq> range CreateCard \<union> range (\<lambda>(c, p). FinishCard c p)"
proof (cases "js_trim (processedContent env content) = []")
  case True
  then show ?thesis by (simp add: sendAICardInternal_def Let_def)
next
  case False
  show ?thesis
  proof (cases "createAICardForTarget env tg")
    case (Rejected e)
    with False show ?thesis by (simp add: sendAICardInternal_def Let_def)
  next
    case (Fulfilled co)
    show ?thesis
    proof (cases co)
      case None
      with False Fulfilled show ?thesis by (simp add: sendAICardInternal_def Let_def)
    next
      case (Some c)
      show ?thesis
      proof (cases "finishAICard env c (processedContent env content)")
        case (Rejected e)
        with False Fulfilled Some show ?thesis
          by (simp add: sendAICardInternal_def Let_def) (metis case_prod_conv rangeI)
      next
        case f: (Fulfilled u)
        with False Fulfilled Some show ?thesis
          by (simp add: sendAICardInternal_def Let_def) (metis case_prod_conv rangeI)
      qed
    qed
  qed
qed

lemma aicard_trace_enter:
  "EnterAICard tg content \<in> set (snd (sendAICardInternal env config tg content))"
  using aicard_trace_shape[of env config tg content] by auto

lemma aicard_trace_no_normal_user:
  "EnterNormalToUser ids c \<notin> set (snd (sendAICardInternal env config tg content))"
proof -
  obtain rest where r: "snd (sendAICardInternal env config tg content)
            = EnterAICard tg content # mediaCalls env content @ rest"
    and s: "set rest \<subseteq> range CreateCard \<union> range (\<lambda>(c, p). FinishCard c p)"
    using aicard_trace_shape[of env config tg content] by blast
  have "EnterNormalToUser ids c \<notin> set rest" using s by auto
  moreover have "EnterNormalToUser ids c \<notin> set (mediaCalls env content)"
    using mediaCalls_shape[of env content] by auto
  ultimately show ?thesis by (simp add: r)
qed


lemma normal_user_trace_shape:
  "set (snd (sendNormalToUser env config ids content options))
     \<subseteq> {EnterNormalToUser ids content, GetAccessToken}
        \<union> range (\<lambda>(a, b, c, d). PostBatchSend a b c d)"
proof (cases "buildMsgPayload env (case msgType options of None \<Rightarrow> MsgText | Some m \<Rightarrow> m) content (title options)")
  case (Inl msg)
  then show ?thesis by (simp add: sendNormalToUser_def Let_def)
next
  case (Inr kp)
  obtain key param where kp: "kp = (key, param)" by (cases kp)
  show ?thesis
  proof (cases "getAccessToken env")
    case (Rejected e)
    with Inr kp show ?thesis by (simp add: sendNormalToUser_def Let_def)
  next
    case (Fulfilled tok)
    have p: "PostBatchSend (clientId config) ids key param \<in> range (\<lambda>(a, b, c, d). PostBatchSend a b c d)"
      by (metis case_prod_conv rangeI)
    show ?thesis
    proof (cases "postBatchSend env ids key param")
      case r: (Rejected e)
      with Inr kp Fulfilled p show ?thesis by (simp add: sendNormalToUser_def Let_def)
    next
      case f: (Fulfilled d)
      with Inr kp Fulfilled p show ?thesis by (simp add: sendNormalToUser_def Let_def)
    qed
  qed
qed

lemma normal_user_trace_no_aicard:
  "EnterAICard tg c \<notin> set (snd (sendNormalToUser env config ids content options))"
  using normal_user_trace_shape[of env config ids content options] by auto



lemma sendToUser_rich:
  assumes "optionOr (useAICard options) True" and "toUserIdArray userIds = [u]"
    and "ok (fst (sendAICardInternal env config (UserTarget u) content))
         \<or> \<not> optionOr (fallbackToNormal options) True"
  shows "sendToUser env config userIds content options
           = sendAICardInternal env config (UserTarget u) content"
proof -
  obtain r t where rt: "sendAICardInternal env config (UserTarget u) content = (r, t)"
    by (cases "sendAICardInternal env config (UserTarget u) content")
  from assms(3) rt have c: "ok r \<or> \<not> optionOr (fallbackToNormal options) True" by simp
  have "sendToUser env config userIds content options = (r, t)"
    unfolding sendToUser_def Let_def assms(2)
    using assms(1) rt c by simp
  with rt show ?thesis by simp
qed

lemma sendToUser_fallback:
  assumes "optionOr (useAICard options) True" and "toUserIdArray userIds = [u]"
    and "\<not> ok (fst (sendAICardInternal env config (UserTarget u) content))"
    and "optionOr (fallbackToNormal options) True"
  shows "sendToUser env config userIds content options
           = (fst (sendNormalToUser env config [u] content options),
              snd (sendAICardInternal env config (UserTarget u) content)
              @ snd (sendNormalToUser env config [u] content options))"
proof -
  obtain r t where rt: "sendAICardInternal env config (UserTarget u) content = (r, t)"
    by (cases "sendAICardInternal env config (UserTarget u) content")
  obtain r2 t2 where rt2: "sendNormalToUser env config [u] content options = (r2, t2)"
    by (cases "sendNormalToUser env config [u] content options")
  from assms(3) rt have c: "\<not> ok r" by simp
  have "sendToUser env config userIds content options = (r2, t @ t2)"
    unfolding sendToUser_def Let_def assms(2)
    using assms(1) assms(4) rt rt2 c by simp
  with rt rt2 show ?thesis by simp
qed

lemma sendToUser_plain:
  assumes "\<not> optionOr (useAICard options) True \<or> length (toUserIdArray userIds) \<noteq> 1"
  shows "sendToUser env config userIds content options
           = sendNormalToUser env config (toUserIdArray userIds) content options"
proof -
  from assms have "\<not> (optionOr (useAICard options) True \<and> length (toUserIdArray userIds) = 1)"
    by blast
  then show ?thesis unfolding sendToUser_def Let_def by (rule if_not_P)
qed

lemma length_one: "length xs = 1 \<longleftrightarrow> (\<exists>x. xs = [x])"
  by (cases xs) auto



lemma sendToUser_rich_iff:
  "(\<exists>tg. EnterAICard tg content \<in> set (snd (sendToUser env config userIds content options)))
   \<longleftrightarrow> optionOr (useAICard options) True \<and> length (toUserIdArray userIds) = 1"
proof (cases "optionOr (useAICard options) True \<and> length (toUserIdArray userIds) = 1")
  case False
  then have "\<not> optionOr (useAICard options) True \<or> length (toUserIdArray userIds) \<noteq> 1" by blast
  then have e: "sendToUser env config userIds content options
           = sendNormalToUser env config (toUserIdArray userIds) content options"
    by (rule sendToUser_plain)
  have "\<not> (\<exists>tg. EnterAICard tg content \<in> set (snd (sendToUser env config userIds content options)))"
    unfolding e using normal_user_trace_no_aicard by blast
  with False show ?thesis by blast
next
  case True
  then have ua: "optionOr (useAICard options) True" by (rule conjunct1)
  from True have "length (toUserIdArray userIds) = 1" by (rule conjunct2)
  then obtain u where u: "toUserIdArray userIds = [u]" unfolding length_one by blast
  have "EnterAICard (UserTarget u) content \<in> set (snd (sendToUser env config userIds content options))"
  proof (cases "ok (fst (sendAICardInternal env config (UserTarget u) content))
         \<or> \<not> optionOr (fallbackToNormal options) True")
    case t: True
    show ?thesis unfolding sendToUser_rich[OF ua u t] by (rule aicard_trace_enter)
  next
    case False
    then have a: "\<not> ok (fst (sendAICardInternal env config (UserTarget u) content))"
      and b: "optionOr (fallbackToNormal options) True" by blast+
    have "EnterAICard (UserTarget u) content \<in> set (snd (sendAICardInternal env config (UserTarget u) content))"
      by (rule aicard_trace_enter)
    then show ?thesis unfolding sendToUser_fallback[OF ua u a b] by simp
  qed
  then have "\<exists>tg. EnterAICard tg content \<in> set (snd (sendToUser env config userIds content options))"
    by (rule exI)
  with True show ?thesis by blast
qed



text \<open>
  Claim C3. \<open>sendToUser\<close> enters the rich-card path exactly when \<open>useAICard\<close> is not false
  (absent counts as true) and the id array has length one. When that attempt succeeds, its
  result and trace are those of \<open>sendToUser\<close>: \<open>sendNormalToUser\<close> is not entered. When it
  fails and \<open>fallbackToNormal\<close> is \<open>false\<close>, the failing result is returned and
  \<open>sendNormalToUser\<close> is not entered. With an id array of any other length the call is
  \<open>sendNormalToUser\<close> on the array and the rich-card path is not entered.
\<close>

theorem sendToUser_paths:
  "((\<exists>tg. EnterAICard tg content \<in> set (snd (sendToUser env config userIds content options)))
      \<longleftrightarrow> optionOr (useAICard options) True \<and> length (toUserIdArray userIds) = 1)
   \<and> (optionOr (useAICard options) True \<and> toUserIdArray userIds = [u]
        \<and> ok (fst (sendAICardInternal env config (UserTarget u) content)) \<longrightarrow>
        sendToUser env config userIds content options
          = sendAICardInternal env config (UserTarget u) content
        \<and> EnterNormalToUser ids c \<notin> set (snd (sendToUser env config userIds content options)))
   \<and> (optionOr (useAICard options) True \<and> toUserIdArray userIds = [u]
        \<and> \<not> ok (fst (sendAICardInternal env config (UserTarget u) content))
        \<and> fallbackToNormal options = Some False \<longrightarrow>
        sendToUser env config userIds content options
          = sendAICardInternal env config (UserTarget u) content
        \<and> \<not> ok (fst (sendToUser env config userIds content options))
        \<and> EnterNormalToUser ids c \<notin> set (snd (sendToUser env config userIds content options)))
   \<and> (length (toUserIdArray userIds) \<noteq> 1 \<longrightarrow>
        sendToUser env config userIds content options
          = sendNormalToUser env config (toUserIdArray userIds) content options
        \<and> EnterAICard tg' c \<notin> set (snd (sendToUser env config userIds content options)))"
proof -
  have b: "optionOr (useAICard options) True \<and> toUserIdArray userIds = [u]
        \<and> ok (fst (sendAICardInternal env config (UserTarget u) content)) \<longrightarrow>
        sendToUser env config userIds content options
          = sendAICardInternal env config (UserTarget u) content
        \<and> EnterNormalToUser ids c \<notin> set (snd (sendToUser env config userIds content options))"
  proof
    assume h: "optionOr (useAICard options) True \<and> toUserIdArray userIds = [u]
        \<and> ok (fst (sendAICardInternal env config (UserTarget u) content))"
    then have e: "sendToUser env config userIds content options
          = sendAICardInternal env config (UserTarget u) content"
      using sendToUser_rich[of options userIds u env config content] by blast
    show "sendToUser env config userIds content options
          = sendAICardInternal env config (UserTarget u) content
        \<and> EnterNormalToUser ids c \<notin> set (snd (sendToUser env config userIds content options))"
      unfolding e using aicard_trace_no_normal_user[of ids c env config "UserTarget u" content]
      by blast
  qed
  have c: "optionOr (useAICard options) True \<and> toUserIdArray userIds = [u]
        \<and> \<not> ok (fst (sendAICardInternal env config (UserTarget u) content))
        \<and> fallbackToNormal options = Some False \<longrightarrow>
        sendToUser env config userIds content options
          = sendAICardInternal env config (UserTarget u) content
        \<and> \<not> ok (fst (sendToUser env config userIds content options))
        \<and> EnterNormalToUser ids c \<notin> set (snd (sendToUser env config userIds content options))"
  proof
    assume h: "optionOr (useAICard options) True \<and> toUserIdArray userIds = [u]
        \<and> \<not> ok (fst (sendAICardInternal env config (UserTarget u) content))
        \<and> fallbackToNormal options = Some False"
    then have "\<not> optionOr (fallbackToNormal options) True" by (simp add: optionOr_def)
    with h sendToUser_rich[of options userIds u env config content]
    have e: "sendToUser env config userIds content options
          = sendAICardInternal env config (UserTarget u) content" by blast
    show "sendToUser env config userIds content options
          = sendAICardInternal env config (UserTarget u) content
        \<and> \<not> ok (fst (sendToUser env config userIds content options))
        \<and> EnterNormalToUser ids c \<notin> set (snd (sendToUser env config userIds content options))"
      unfolding e using h aicard_trace_no_normal_user[of ids c env config "UserTarget u" content]
      by blast
  qed
  have d: "length (toUserIdArray userIds) \<noteq> 1 \<longrightarrow>
        sendToUser env config userIds content options
          = sendNormalToUser env config (toUserIdArray userIds) content options
        \<and> EnterAICard tg' c \<notin> set (snd (sendToUser env config userIds content options))"
  proof
    assume h: "length (toUserIdArray userIds) \<noteq> 1"
    then have e: "sendToUser env config userIds content options
          = sendNormalToUser env config (toUserIdArray userIds) content options"
      using sendToUser_plain[of options userIds env config content] by blast
    show "sendToUser env config userIds content options
          = sendNormalToUser env config (toUserIdArray userIds) content options
        \<and> EnterAICard tg' c \<notin> set (snd (sendToUser env config userIds content options))"
      unfolding e
      using normal_user_trace_no_aicard[of tg' c env config "toUserIdArray userIds" content options]
      by blast
  qed
  from sendToUser_rich_iff[of content env config userIds options] b c d show ?thesis by blast
qed



lemma trim_hello: "js_trim hello \<noteq> []"
  by (simp add: hello_def js_trim_def ascii_def isWhiteSpace_def isLineTerminator_def)

lemma cardEnv_rich:
  "sendAICardInternal cardEnv testConfig (UserTarget sender_u1) hello
     = (\<lparr>ok = True, processQueryKey = None, resultCardInstanceId = Some (ascii ''card_1''),
         error = None, usedAICard = Some True\<rparr>,
        [EnterAICard (UserTarget sender_u1) hello, GetOapiAccessToken,
         CreateCard (UserTarget sender_u1), FinishCard card1 hello])"
  using trim_hello
  by (simp add: sendAICardInternal_def processedContent_def mediaCalls_def cardEnv_def truthy_def
      card1_def Let_def)

lemma noCardEnv_rich:
  "sendAICardInternal noCardEnv testConfig (UserTarget sender_u1) hello
     = (\<lparr>ok = False, processQueryKey = None, resultCardInstanceId = None,
         error = Some (ascii ''Failed to create AI Card''), usedAICard = Some False\<rparr>,
        [EnterAICard (UserTarget sender_u1) hello, GetOapiAccessToken,
         CreateCard (UserTarget sender_u1)])"
  using trim_hello
  by (simp add: sendAICardInternal_def processedContent_def mediaCalls_def noCardEnv_def cardEnv_def
      truthy_def Let_def)

theorem sendToUser_paths_witness:
  "optionOr (useAICard defaultOptions) True
   \<and> toUserIdArray (OneId sender_u1) = [sender_u1]
   \<and> ok (fst (sendAICardInternal cardEnv testConfig (UserTarget sender_u1) hello))
   \<and> sendToUser cardEnv testConfig (OneId sender_u1) hello defaultOptions
        = sendAICardInternal cardEnv testConfig (UserTarget sender_u1) hello
   \<and> EnterNormalToUser [sender_u1] hello
        \<notin> set (snd (sendToUser cardEnv testConfig (OneId sender_u1) hello defaultOptions))
   \<and> fallbackToNormal (defaultOptions\<lparr>fallbackToNormal := Some False\<rparr>) = Some False
   \<and> \<not> ok (fst (sendAICardInternal noCardEnv testConfig (UserTarget sender_u1) hello))
   \<and> \<not> ok (fst (sendToUser noCardEnv testConfig (OneId sender_u1) hello
                   (defaultOptions\<lparr>fallbackToNormal := Some False\<rparr>)))
   \<and> length (toUserIdArray (IdArray [sender_u1, ascii ''u2''])) \<noteq> 1
   \<and> sendToUser cardEnv testConfig (IdArray [sender_u1, ascii ''u2'']) hello defaultOptions
        = sendNormalToUser cardEnv testConfig [sender_u1, ascii ''u2''] hello defaultOptions
   \<and> EnterAICard (UserTarget sender_u1) hello
        \<notin> set (snd (sendToUser cardEnv testConfig (IdArray [sender_u1, ascii ''u2'']) hello defaultOptions))"
proof -
  have a1: "optionOr (useAICard defaultOptions) True" by (simp add: optionOr_def defaultOptions_def)
  have a1': "optionOr (useAICard (defaultOptions\<lparr>fallbackToNormal := Some False\<rparr>)) True"
    by (simp add: optionOr_def defaultOptions_def)
  have a2: "toUserIdArray (OneId sender_u1) = [sender_u1]" by (simp add: toUserIdArray_def)
  have a3: "ok (fst (sendAICardInternal cardEnv testConfig (UserTarget sender_u1) hello))"
    unfolding cardEnv_rich by simp
  have a4: "\<not> ok (fst (sendAICardInternal noCardEnv testConfig (UserTarget sender_u1) hello))"
    unfolding noCardEnv_rich by simp
  have a5: "fallbackToNormal (defaultOptions\<lparr>fallbackToNormal := Some False\<rparr>) = Some False" by simp
  have a6: "length (toUserIdArray (IdArray [sender_u1, ascii ''u2''])) \<noteq> 1"
    by (simp add: toUserIdArray_def)
  have a7: "toUserIdArray (IdArray [sender_u1, ascii ''u2'']) = [sender_u1, ascii ''u2'']"
    by (simp add: toUserIdArray_def)
  from sendToUser_paths[where env = cardEnv and config = testConfig and userIds = "OneId sender_u1"
      and content = hello and options = defaultOptions and u = sender_u1 and ids = "[sender_u1]"
      and c = hello] a1 a2 a3
  have w1: "sendToUser cardEnv testConfig (OneId sender_u1) hello defaultOptions
        = sendAICardInternal cardEnv testConfig (UserTarget sender_u1) hello
      \<and> EnterNormalToUser [sender_u1] hello
        \<notin> set (snd (sendToUser cardEnv testConfig (OneId sender_u1) hello defaultOptions))"
    by blast
  from sendToUser_paths[where env = noCardEnv and config = testConfig and userIds = "OneId sender_u1"
      and content = hello and options = "defaultOptions\<lparr>fallbackToNormal := Some False\<rparr>"
      and u = sender_u1 and ids = "[sender_u1]" and c = hello] a1' a2 a4 a5
  have w2: "\<not> ok (fst (sendToUser noCardEnv testConfig (OneId sender_u1) hello
                   (defaultOptions\<lparr>fallbackToNormal := Some False\<rparr>)))"
    by blast
  from sendToUser_paths[where env = cardEnv and config = testConfig
      and userIds = "IdArray [sender_u1, ascii ''u2'']"
      and content = hello and options = defaultOptions and tg' = "UserTarget sender_u1"
      and c = hello] a6
  have w3: "sendToUser cardEnv testConfig (IdArray [sender_u1, ascii ''u2'']) hello defaultOptions
        = sendNormalToUser cardEnv testConfig (toUserIdArray (IdArray [sender_u1, ascii ''u2''])) hello defaultOptions
     \<and> EnterAICard (UserTarget sender_u1) hello
        \<notin> set (snd (sendToUser cardEnv testConfig (IdArray [sender_u1, ascii ''u2'']) hello defaultOptions))"
    by blast
  from a1 a2 a3 w1 a5 a4 w2 a6 w3 show ?thesis unfolding a7 by blast
qed



lemma sendProactive_no_target:
  assumes "\<not> truthy (targetUserId target)" and "targetUserIds target = None"
    and "\<not> truthy (targetOpenConversationId target)"
  shows "sendProactive env config target content options
           = (\<lparr>ok = False, processQueryKey = None, resultCardInstanceId = None,
               error = Some (ascii ''Must specify userId, userIds, or openConversationId''),
               usedAICard = Some False\<rparr>, [])"
  unfolding sendProactive_def Let_def using assms by simp

lemma sendProactive_user_list:
  assumes "targetUserIds target = Some ids"
  shows "sendProactive env config target content options
           = sendToUser env config (IdArray ids) content (detectMsgType content options)"
  unfolding sendProactive_def Let_def using assms by simp

lemma sendProactive_user:
  assumes "targetUserIds target = None" and "targetUserId target = Some u" and "u \<noteq> []"
  shows "sendProactive env config target content options
           = sendToUser env config (IdArray [u]) content (detectMsgType content options)"
  unfolding sendProactive_def Let_def using assms by (simp add: truthy_def)

lemma sendProactive_group:
  assumes "\<not> truthy (targetUserId target)" and "targetUserIds target = None"
    and "targetOpenConversationId target = Some g" and "g \<noteq> []"
  shows "sendProactive env config target content options
           = sendToGroup env config g content (detectMsgType content options)"
  unfolding sendProactive_def Let_def using assms by (simp add: truthy_def)

text \<open>
  Claim C8. With no truthy user id, no user id list and no truthy group conversation id,
  \<open>sendProactive\<close> returns \<open>ok = false\<close> with the error text
  \<open>Must specify userId, userIds, or openConversationId\<close> and an empty trace. With a user id
  list it is \<open>sendToUser\<close> on that list, with a truthy user id and no list it is
  \<open>sendToUser\<close> on the one id; with neither and a truthy group conversation id it is
  \<open>sendToGroup\<close>. The options passed on carry the detected message type.
\<close>

theorem sendProactive_targets:
  "(\<not> truthy (targetUserId target) \<and> targetUserIds target = None
      \<and> \<not> truthy (targetOpenConversationId target) \<longrightarrow>
      sendProactive env config target content options
        = (\<lparr>ok = False, processQueryKey = None, resultCardInstanceId = None,
            error = Some (ascii ''Must specify userId, userIds, or openConversationId''),
            usedAICard = Some False\<rparr>, []))
   \<and> (targetUserIds target = Some ids \<longrightarrow>
      sendProactive env config target content options
        = sendToUser env config (IdArray ids) content (detectMsgType content options))
   \<and> (targetUserIds target = None \<and> targetUserId target = Some u \<and> u \<noteq> [] \<longrightarrow>
      sendProactive env config target content options
        = sendToUser env config (IdArray [u]) content (detectMsgType content options))
   \<and> (\<not> truthy (targetUserId target) \<and> targetUserIds target = None
      \<and> targetOpenConversationId target = Some g \<and> g \<noteq> [] \<longrightarrow>
      sendProactive env config target content options
        = sendToGroup env config g content (detectMsgType content options))"
  using sendProactive_no_target[of target env config content options]
    sendProactive_user_list[of target ids env config content options]
    sendProactive_user[of target u env config content options]
    sendProactive_group[of target g env config content options]
  by blast

theorem sendProactive_targets_witness:
  "\<not> truthy (targetUserId noTarget) \<and> targetUserIds noTarget = None
   \<and> \<not> truthy (targetOpenConversationId noTarget)
   \<and> sendProactive cardEnv testConfig noTarget hello defaultOptions
        = (\<lparr>ok = False, processQueryKey = None, resultCardInstanceId = None,
            error = Some (ascii ''Must specify userId, userIds, or openConversationId''),
            usedAICard = Some False\<rparr>, [])
   \<and> targetUserId (noTarget\<lparr>targetUserId := Some sender_u1\<rparr>) = Some sender_u1
   \<and> sender_u1 \<noteq> []
   \<and> sendProactive cardEnv testConfig (noTarget\<lparr>targetUserId := Some sender_u1\<rparr>) hello defaultOptions
        = sendToUser cardEnv testConfig (IdArray [sender_u1]) hello (detectMsgType hello defaultOptions)
   \<and> targetOpenConversationId (noTarget\<lparr>targetOpenConversationId := Some (ascii ''conv-123'')\<rparr>)
        = Some (ascii ''conv-123'')
   \<and> sendProactive cardEnv testConfig (noTarget\<lparr>targetOpenConversationId := Some (ascii ''conv-123'')\<rparr>)
         hello defaultOptions
        = sendToGroup cardEnv testConfig (ascii ''conv-123'') hello (detectMsgType hello defaultOptions)"
proof -
  have n: "\<not> truthy (targetUserId noTarget)" "targetUserIds noTarget = None"
    "\<not> truthy (targetOpenConversationId noTarget)"
    by (simp_all add: noTarget_def truthy_def)
  have u: "targetUserIds (noTarget\<lparr>targetUserId := Some sender_u1\<rparr>) = None"
    "targetUserId (noTarget\<lparr>targetUserId := Some sender_u1\<rparr>) = Some sender_u1"
    "sender_u1 \<noteq> []"
    by (simp_all add: noTarget_def sender_u1_def ascii_def)
  have g: "\<not> truthy (targetUserId (noTarget\<lparr>targetOpenConversationId := Some (ascii ''conv-123'')\<rparr>))"
    "targetUserIds (noTarget\<lparr>targetOpenConversationId := Some (ascii ''conv-123'')\<rparr>) = None"
    "targetOpenConversationId (noTarget\<lparr>targetOpenConversationId := Some (ascii ''conv-123'')\<rparr>)
        = Some (ascii ''conv-123'')"
    "ascii ''conv-123'' \<noteq> []"
    by (simp_all add: noTarget_def truthy_def ascii_def)
  from sendProactive_targets[where target = noTarget and env = cardEnv and config = testConfig
      and content = hello and options = defaultOptions] n
  have w1: "sendProactive cardEnv testConfig noTarget hello defaultOptions
        = (\<lparr>ok = False, processQueryKey = None, resultCardInstanceId = None,
            error = Some (ascii ''Must specify userId, userIds, or openConversationId''),
            usedAICard = Some False\<rparr>, [])" by blast
  from sendProactive_targets[where target = "noTarget\<lparr>targetUserId := Some sender_u1\<rparr>"
      and env = cardEnv and config = testConfig and content = hello and options = defaultOptions
      and u = sender_u1] u
  have w2: "sendProactive cardEnv testConfig (noTarget\<lparr>targetUserId := Some sender_u1\<rparr>) hello defaultOptions
        = sendToUser cardEnv testConfig (IdArray [sender_u1]) hello (detectMsgType hello defaultOptions)"
    by blast
  from sendProactive_targets[where target = "noTarget\<lparr>targetOpenConversationId := Some (ascii ''conv-123'')\<rparr>"
      and env = cardEnv and config = testConfig and content = hello and options = defaultOptions
      and g = "ascii ''conv-123''"] g
  have w3: "sendProactive cardEnv testConfig (noTarget\<lparr>targetOpenConversationId := Some (ascii ''conv-123'')\<rparr>)
         hello defaultOptions
        = sendToGroup cardEnv testConfig (ascii ''conv-123'') hello (detectMsgType hello defaultOptions)"
    by blast
  from n w1 u w2 g w3 show ?thesis by blast
qed



lemma trim_front: "dropWhile isWhiteSpace (js_trim s) = js_trim s"
proof (cases "js_trim s = []")
  case True
  then show ?thesis by simp
next
  case False
  let ?t = "dropWhile isWhiteSpace s"
  let ?k = "length (takeWhile isWhiteSpace (rev ?t))"
  have "dropWhile isWhiteSpace (rev ?t) = drop ?k (rev ?t)"
    by (rule dropWhile_eq_drop)
  then have u: "js_trim s = take (length ?t - ?k) ?t"
    by (simp add: js_trim_def rev_drop)
  with False have pos: "0 < length ?t - ?k" and ne: "?t \<noteq> []" by auto
  from ne have "\<not> isWhiteSpace (hd ?t)" by (rule hd_dropWhile)
  moreover from pos ne have "hd (js_trim s) = hd ?t"
    unfolding u by (cases ?t) (auto simp: take_Suc_conv_app_nth hd_take)
  ultimately have "\<not> isWhiteSpace (hd (js_trim s))" by simp
  with False show ?thesis by (cases "js_trim s") simp_all
qed

lemma trim_back: "dropWhile isWhiteSpace (rev (js_trim s)) = rev (js_trim s)"
proof (cases "dropWhile isWhiteSpace (rev (dropWhile isWhiteSpace s)) = []")
  case True
  then show ?thesis by (simp add: js_trim_def)
next
  case False
  then have "\<not> isWhiteSpace (hd (dropWhile isWhiteSpace (rev (dropWhile isWhiteSpace s))))"
    by (rule hd_dropWhile)
  with False show ?thesis
    by (cases "dropWhile isWhiteSpace (rev (dropWhile isWhiteSpace s))") (simp_all add: js_trim_def)
qed

lemma js_trim_idem: "js_trim (js_trim s) = js_trim s"
proof -
  have "js_trim (js_trim s) = rev (dropWhile isWhiteSpace (rev (dropWhile isWhiteSpace (js_trim s))))"
    by (simp add: js_trim_def)
  also have "\<dots> = rev (dropWhile isWhiteSpace (rev (js_trim s)))" by (simp only: trim_front)
  also have "\<dots> = rev (rev (js_trim s))" by (simp only: trim_back)
  finally show ?thesis by simp
qed

lemma processed_no_token: "\<not> truthy (oapiToken env) \<Longrightarrow> processedContent env content = content"
  by (simp add: processedContent_def)

lemma processed_token_trimmed:
  "truthy (oapiToken env) \<Longrightarrow> js_trim (processedContent env content) = processedContent env content"
  by (simp add: processedContent_def processFileMarkers_def js_trim_idem)

lemma whitespace_not_bracket: "isWhiteSpace c \<Longrightarrow> c \<noteq> 0x5B"
  by (auto simp: isWhiteSpace_def isLineTerminator_def)

lemma markerOpen_head: "\<exists>r. markerOpen k = 0x5B # r"
  by (cases k) (simp_all add: ascii_def)

lemma removeMarkers_blank: "blank s \<Longrightarrow> removeMarkers k s = s"
proof (induction s)
  case Nil
  then show ?case by simp
next
  case (Cons c cs)
  from Cons.prems have w: "isWhiteSpace c" and b: "blank cs" by (simp_all add: blank_def)
  obtain r where r: "markerOpen k = 0x5B # r" using markerOpen_head by blast
  from w have "c \<noteq> 0x5B" by (rule whitespace_not_bracket)
  then have "\<not> startsWith (c # cs) (markerOpen k)" by (simp add: startsWith_def r)
  with Cons.IH[OF b] show ?case by simp
qed

lemma ws_cases:
  "isWhiteSpace c \<Longrightarrow> c \<noteq> 0x21 \<and> c \<noteq> 0x60 \<and> c \<noteq> 0x2F \<and> \<not> isAsciiLetter c \<and> canonicalize c = c"
  unfolding isWhiteSpace_def isLineTerminator_def isAsciiLetter_def canonicalize_def
  by (elim disjE conjE) (simp_all, unat_arith+)

lemma localImageAt_ws: "isWhiteSpace c \<Longrightarrow> localImageAt (c # cs) = None"
  using ws_cases[of c] by (simp add: localImageAt_def startsWith_def ascii_def)

lemma startsWithIgnoreCase_slash:
  "isWhiteSpace c \<Longrightarrow> \<not> startsWithIgnoreCase (c # cs) (ascii (CHR ''/'' # d))"
  using ws_cases[of c] by (simp add: startsWithIgnoreCase_def ascii_def canonicalize_def)

lemma barePrefix_ws: "isWhiteSpace c \<Longrightarrow> barePrefix (c # cs) = None"
proof -
  assume w: "isWhiteSpace c"
  have "find (\<lambda>d. startsWithIgnoreCase (c # cs) (ascii (CHR ''/'' # d @ ''/'')))
          [''tmp'', ''var'', ''private'', ''Users'', ''home'', ''root''] = None"
    using startsWithIgnoreCase_slash[OF w] by (simp add: find_None_iff)
  moreover from w have "\<not> isAsciiLetter c" using ws_cases[of c] by simp
  ultimately show ?thesis by (simp add: barePrefix_def split: list.splits)
qed

lemma bareImagePathAt_ws: "isWhiteSpace c \<Longrightarrow> bareImagePathAt (c # cs) = None"
proof -
  assume w: "isWhiteSpace c"
  then have "\<not> startsWith (c # cs) [0x60]" using ws_cases[of c] by (simp add: startsWith_def)
  with barePrefix_ws[OF w] show ?thesis by (simp add: bareImagePathAt_def Let_def)
qed

lemma matchAllFrom_blank:
  "(\<And>c cs. isWhiteSpace c \<Longrightarrow> matchAt (c # cs) = None) \<Longrightarrow> blank s \<Longrightarrow>
   matchAllFrom matchAt skip i s = []"
proof (induction s arbitrary: skip i)
  case Nil
  then show ?case by simp
next
  case (Cons c cs)
  from Cons.prems(2) have w: "isWhiteSpace c" and b: "blank cs" by (simp_all add: blank_def)
  from Cons.prems(1)[OF w] Cons.IH[OF Cons.prems(1) b] show ?case by simp
qed

lemma processLocalImages_blank:
  "blank content \<Longrightarrow> processLocalImages upload content token = (content, [])"
  by (simp add: processLocalImages_def matchAll_def Let_def
      matchAllFrom_blank[of localImageAt, OF localImageAt_ws]
      matchAllFrom_blank[of bareImagePathAt, OF bareImagePathAt_ws])

lemma processed_blank:
  assumes "blank content"
  shows "processedContent env content = (if truthy (oapiToken env) then [] else content)"
proof (cases "truthy (oapiToken env)")
  case False
  then show ?thesis by (simp add: processedContent_def)
next
  case True
  from assms have t: "js_trim content = []" by (simp add: js_trim_empty_iff)
  have v: "processVideoMarkers content = []"
    by (simp add: processVideoMarkers_def removeMarkers_blank[OF assms] t)
  have a: "processAudioMarkers [] = []" by (simp add: processAudioMarkers_def js_trim_def)
  have f: "processFileMarkers [] = []" by (simp add: processFileMarkers_def js_trim_def)
  show ?thesis unfolding processedContent_def using True
    by (simp add: processLocalImages_blank[OF assms] v a f)
qed

lemma mediaCalls_blank:
  "blank content \<Longrightarrow>
   mediaCalls env content
     = (if truthy (oapiToken env) then [GetOapiAccessToken, ProcessLocalImages content]
        else [GetOapiAccessToken])"
  by (simp add: mediaCalls_def processLocalImages_blank)

lemma blank_stays_blank: "blank content \<Longrightarrow> blank (processedContent env content)"
  by (simp add: processed_blank) (simp add: blank_def)

lemma aicard_blank:
  assumes "blank (processedContent env content)"
  shows "sendAICardInternal env config tg content
           = (\<lparr>ok = True, processQueryKey = None, resultCardInstanceId = None, error = None,
               usedAICard = Some False\<rparr>, EnterAICard tg content # mediaCalls env content)"
proof -
  from assms have "js_trim (processedContent env content) = []" by (simp add: js_trim_empty_iff)
  then show ?thesis unfolding sendAICardInternal_def Let_def by simp
qed

lemma sendToGroup_rich:
  assumes "optionOr (useAICard options) True"
    and "ok (fst (sendAICardInternal env config (GroupTarget g) content))
         \<or> \<not> optionOr (fallbackToNormal options) True"
  shows "sendToGroup env config g content options
           = sendAICardInternal env config (GroupTarget g) content"
proof -
  obtain r t where rt: "sendAICardInternal env config (GroupTarget g) content = (r, t)"
    by (cases "sendAICardInternal env config (GroupTarget g) content")
  from assms(2) rt have c: "ok r \<or> \<not> optionOr (fallbackToNormal options) True" by simp
  have "sendToGroup env config g content options = (r, t)"
    unfolding sendToGroup_def Let_def
    using assms(1) rt c by simp
  with rt show ?thesis by simp
qed

lemma sendToUser_blank:
  assumes "blank (processedContent env content)" and "optionOr (useAICard options) True"
    and "toUserIdArray userIds = [u]"
  shows "sendToUser env config userIds content options
           = (\<lparr>ok = True, processQueryKey = None, resultCardInstanceId = None, error = None,
               usedAICard = Some False\<rparr>, EnterAICard (UserTarget u) content # mediaCalls env content)"
proof -
  note b = aicard_blank[OF assms(1), of config "UserTarget u"]
  have "ok (fst (sendAICardInternal env config (UserTarget u) content))
         \<or> \<not> optionOr (fallbackToNormal options) True"
    unfolding b by simp
  from sendToUser_rich[OF assms(2) assms(3) this] show ?thesis unfolding b .
qed

lemma sendToGroup_blank:
  assumes "blank (processedContent env content)" and "optionOr (useAICard options) True"
  shows "sendToGroup env config g content options
           = (\<lparr>ok = True, processQueryKey = None, resultCardInstanceId = None, error = None,
               usedAICard = Some False\<rparr>, EnterAICard (GroupTarget g) content # mediaCalls env content)"
proof -
  note b = aicard_blank[OF assms(1), of config "GroupTarget g"]
  have "ok (fst (sendAICardInternal env config (GroupTarget g) content))
         \<or> \<not> optionOr (fallbackToNormal options) True"
    unfolding b by simp
  from sendToGroup_rich[OF assms(2) this] show ?thesis unfolding b .
qed

text \<open>
  Claim C10 (as amended). When the content after the media pass is empty or
  whitespace-only, \<open>sendAICardInternal\<close> returns \<open>ok = true\<close>, \<open>usedAICard = false\<close>; its trace
  holds the token request and, with a token, the image pass with its uploads, and no card
  creation, card finalisation or message post. So \<open>sendToUser\<close> with rich cards enabled
  and one recipient, and \<open>sendToGroup\<close> with rich cards enabled, return that success and
  that trace. The media pass leaves whitespace-only input unchanged when no OAPI token is
  obtained; with a token it uploads nothing and turns whitespace-only input into the empty
  string, the marker passes trimming their result. Either way whitespace-only input is
  blank after the media pass.
\<close>

theorem blank_content_rich_path:
  "(blank (processedContent env content) \<longrightarrow>
      sendAICardInternal env config tg content
        = (\<lparr>ok = True, processQueryKey = None, resultCardInstanceId = None, error = None,
            usedAICard = Some False\<rparr>, EnterAICard tg content # mediaCalls env content))
   \<and> (blank (processedContent env content) \<and> optionOr (useAICard options) True
        \<and> toUserIdArray userIds = [u] \<longrightarrow>
      sendToUser env config userIds content options
        = (\<lparr>ok = True, processQueryKey = None, resultCardInstanceId = None, error = None,
            usedAICard = Some False\<rparr>, EnterAICard (UserTarget u) content # mediaCalls env content))
   \<and> (blank (processedContent env content) \<and> optionOr (useAICard options) True \<longrightarrow>
      sendToGroup env config g content options
        = (\<lparr>ok = True, processQueryKey = None, resultCardInstanceId = None, error = None,
            usedAICard = Some False\<rparr>, EnterAICard (GroupTarget g) content # mediaCalls env content))
   \<and> set (mediaCalls env content)
        \<subseteq> {GetOapiAccessToken, ProcessLocalImages content} \<union> range UploadMedia
   \<and> (\<not> truthy (oapiToken env) \<longrightarrow> processedContent env content = content)
   \<and> (truthy (oapiToken env) \<longrightarrow>
        js_trim (processedContent env content) = processedContent env content)
   \<and> (blank content \<longrightarrow>
        processedContent env content = (if truthy (oapiToken env) then [] else content)
        \<and> blank (processedContent env content)
        \<and> mediaCalls env content
            = (if truthy (oapiToken env) then [GetOapiAccessToken, ProcessLocalImages content]
               else [GetOapiAccessToken]))"
  using aicard_blank[of env content config tg] processed_blank[of content env]
    sendToUser_blank[of env content options userIds u config]
    sendToGroup_blank[of env content options config g]
    mediaCalls_shape[of env content] mediaCalls_blank[of content env]
    blank_stays_blank[of content env]
    processed_no_token[of env content] processed_token_trimmed[of env content]
  by blast

lemma blank_oneSpace: "blank oneSpace"
  by (simp add: oneSpace_def blank_def ascii_def isWhiteSpace_def)

lemma token_tokenEnv: "truthy (oapiToken tokenEnv)"
  by (simp add: tokenEnv_def cardEnv_def truthy_def ascii_def)

lemma processed_oneSpace: "processedContent tokenEnv oneSpace = []"
  using processed_blank[OF blank_oneSpace, of tokenEnv] token_tokenEnv by simp

text \<open>
  Claim C10 as stated fails in its remark on the media pass: with an OAPI token, the
  whitespace-only content of one space is not left unchanged (the marker passes trim it to
  the empty string).
\<close>

theorem media_pass_changes_whitespace_counterexample:
  "blank oneSpace \<and> truthy (oapiToken tokenEnv) \<and> processedContent tokenEnv oneSpace \<noteq> oneSpace"
  using blank_oneSpace processed_oneSpace token_tokenEnv
  by (simp add: oneSpace_def ascii_def)

theorem blank_content_rich_path_witness:
  "blank oneSpace
   \<and> blank (processedContent tokenEnv oneSpace)
   \<and> optionOr (useAICard defaultOptions) True
   \<and> toUserIdArray (OneId sender_u1) = [sender_u1]
   \<and> truthy (oapiToken tokenEnv)
   \<and> processedContent tokenEnv oneSpace = []
   \<and> sendToUser tokenEnv testConfig (OneId sender_u1) oneSpace defaultOptions
        = (\<lparr>ok = True, processQueryKey = None, resultCardInstanceId = None, error = None,
            usedAICard = Some False\<rparr>,
           [EnterAICard (UserTarget sender_u1) oneSpace, GetOapiAccessToken, ProcessLocalImages oneSpace])
   \<and> sendToGroup tokenEnv testConfig (ascii ''conv-id-1'') oneSpace defaultOptions
        = (\<lparr>ok = True, processQueryKey = None, resultCardInstanceId = None, error = None,
            usedAICard = Some False\<rparr>,
           [EnterAICard (GroupTarget (ascii ''conv-id-1'')) oneSpace, GetOapiAccessToken,
            ProcessLocalImages oneSpace])
   \<and> \<not> truthy (oapiToken cardEnv)
   \<and> processedContent cardEnv oneSpace = oneSpace
   \<and> sendAICardInternal cardEnv testConfig (UserTarget sender_u1) oneSpace
        = (\<lparr>ok = True, processQueryKey = None, resultCardInstanceId = None, error = None,
            usedAICard = Some False\<rparr>,
           [EnterAICard (UserTarget sender_u1) oneSpace, GetOapiAccessToken])"
proof -
  have ua: "optionOr (useAICard defaultOptions) True" by (simp add: optionOr_def defaultOptions_def)
  have ids: "toUserIdArray (OneId sender_u1) = [sender_u1]" by (simp add: toUserIdArray_def)
  note tt = token_tokenEnv
  have nt: "\<not> truthy (oapiToken cardEnv)" by (simp add: cardEnv_def truthy_def)
  note t1 = blank_content_rich_path[where env = tokenEnv and content = oneSpace and config = testConfig
      and tg = "UserTarget sender_u1" and options = defaultOptions and userIds = "OneId sender_u1"
      and u = sender_u1 and g = "ascii ''conv-id-1''"]
  note t2 = blank_content_rich_path[where env = cardEnv and content = oneSpace and config = testConfig
      and tg = "UserTarget sender_u1" and options = defaultOptions and userIds = "OneId sender_u1"
      and u = sender_u1 and g = "ascii ''conv-id-1''"]
  from t1 blank_oneSpace
  have x1: "processedContent tokenEnv oneSpace = (if truthy (oapiToken tokenEnv) then [] else oneSpace)"
    and bt: "blank (processedContent tokenEnv oneSpace)"
    and y1: "mediaCalls tokenEnv oneSpace
              = (if truthy (oapiToken tokenEnv) then [GetOapiAccessToken, ProcessLocalImages oneSpace]
                 else [GetOapiAccessToken])"
    by blast+
  from x1 tt have pt: "processedContent tokenEnv oneSpace = []" by simp
  from y1 tt have mt: "mediaCalls tokenEnv oneSpace = [GetOapiAccessToken, ProcessLocalImages oneSpace]"
    by simp
  from t2 blank_oneSpace
  have bc: "blank (processedContent cardEnv oneSpace)"
    and y2: "mediaCalls cardEnv oneSpace
              = (if truthy (oapiToken cardEnv) then [GetOapiAccessToken, ProcessLocalImages oneSpace]
                 else [GetOapiAccessToken])"
    by blast+
  from t2 nt have pc: "processedContent cardEnv oneSpace = oneSpace" by blast
  from y2 nt have mc: "mediaCalls cardEnv oneSpace = [GetOapiAccessToken]" by simp
  from t1 bt ua ids have w1:
    "sendToUser tokenEnv testConfig (OneId sender_u1) oneSpace defaultOptions
        = (\<lparr>ok = True, processQueryKey = None, resultCardInstanceId = None, error = None,
            usedAICard = Some False\<rparr>,
           EnterAICard (UserTarget sender_u1) oneSpace # mediaCalls tokenEnv oneSpace)"
    by blast
  from t1 bt ua have w2:
    "sendToGroup tokenEnv testConfig (ascii ''conv-id-1'') oneSpace defaultOptions
        = (\<lparr>ok = True, processQueryKey = None, resultCardInstanceId = None, error = None,
            usedAICard = Some False\<rparr>,
           EnterAICard (GroupTarget (ascii ''conv-id-1'')) oneSpace # mediaCalls tokenEnv oneSpace)"
    by blast
  from t2 bc have w3:
    "sendAICardInternal cardEnv testConfig (UserTarget sender_u1) oneSpace
        = (\<lparr>ok = True, processQueryKey = None, resultCardInstanceId = None, error = None,
            usedAICard = Some False\<rparr>,
           EnterAICard (UserTarget sender_u1) oneSpace # mediaCalls cardEnv oneSpace)"
    by blast
  from blank_oneSpace bt ua ids tt pt w1[unfolded mt] w2[unfolded mt] nt pc w3[unfolded mc]
  show ?thesis by blast
qed

lemma markdown_image_example:
  "processLocalImages (\<lambda>n p. Some (ascii ''m'' @ digits n)) (ascii ''![a](/tmp/x.png)'') (Some (ascii ''t''))
   = (ascii ''![a](m0)'', [ascii ''/tmp/x.png''])"
  by code_simp

lemma bare_image_example:
  "processLocalImages (\<lambda>n p. Some (ascii ''m'' @ digits n)) (ascii ''/tmp/y.JPG.'') (Some (ascii ''t''))
   = (ascii ''![](m0).'', [ascii ''/tmp/y.JPG''])"
  by code_simp

lemma failed_upload_example:
  "processLocalImages (\<lambda>n p. None) (ascii ''![a](/tmp/x.png)'') (Some (ascii ''t''))
   = (ascii ''![a](/tmp/x.png)'', [ascii ''/tmp/x.png''])"
  by code_simp








section \<open>Properties of the reply dispatcher\<close>

lemma creations_append: "creations (a @ b) = creations a + creations b"
  by (simp add: creations_def)

lemma finishes_append: "finishes (a @ b) = finishes a + finishes b"
  by (simp add: finishes_def)

lemma sends_no_creation: "creations (map (\<lambda>(i, chunk). sendPlainText env (sends i) chunk) cs) = 0"
proof -
  have "\<And>x. \<not> isCreation ((\<lambda>(i, chunk). sendPlainText env (sends i) chunk) x)"
    by (simp add: sendPlainText_def split: prod.splits)
  then show ?thesis by (simp add: creations_def filter_empty_conv)
qed

lemma slack_await: "slack (awaitCreation st) = slack st"
  by (simp add: slack_def awaitCreation_def split: option.splits CreationPromise.splits)

lemma startCard_guard:
  "cardCreationPromise st \<noteq> None \<or> cardRef st \<noteq> None \<Longrightarrow> startCard env outcome st = (st, [])"
  by (simp add: startCard_def)

lemma startCard_count:
  "startCard env outcome st = (st', es) \<Longrightarrow> creations es + slack st' = slack st \<and> finishes es = 0"
  by (auto simp: startCard_def slack_def creations_def finishes_def split: if_splits)

lemma closeCard_count:
  "closeCard t st = (st', es) \<Longrightarrow> creations es = 0 \<and> slack st' = 1 \<and> finishes es \<le> 1"
  by (auto simp: closeCard_def Let_def slack_def creations_def finishes_def split: option.splits)

lemma onReplyStart_count:
  assumes "onReplyStart env outcome st = (st', es)"
  shows "creations es + slack st' = slack st \<and> finishes es = 0"
proof -
  obtain st1 e1 where a: "startCard env outcome st = (st1, e1)" by (cases "startCard env outcome st")
  obtain st2 e2 where b: "startCard env outcome st1 = (st2, e2)" by (cases "startCard env outcome st1")
  from assms a b have "st' = st2" "es = e1 @ e2" by (simp_all add: onReplyStart_def)
  with startCard_count[OF a] startCard_count[OF b] show ?thesis
    by (simp add: creations_append finishes_append)
qed

lemma closeCard_finish_slack:
  "closeCard t st = (st', es) \<Longrightarrow> cardRef (awaitCreation st) \<noteq> None \<Longrightarrow> finishes es = 1"
  by (auto simp: closeCard_def Let_def finishes_def split: option.splits)

lemma await_idem: "awaitCreation (awaitCreation st) = awaitCreation st"
  by (simp add: awaitCreation_def split: option.splits CreationPromise.splits)

lemma deliver_count:
  assumes "deliver env sends p k st = (st', es)"
  shows "creations es + slack st' \<le> finishes es + slack st"
proof -
  let ?t = "case p of None \<Rightarrow> [] | Some t \<Rightarrow> t"
  show ?thesis
  proof (cases "js_trim ?t = []")
    case True
    with assms show ?thesis by (simp add: deliver_def creations_def)
  next
    case False
    show ?thesis
    proof (cases "cardRef (awaitCreation st)")
      case None
      with False assms have "st' = awaitCreation st"
        and "es = map (\<lambda>(i, chunk). sendPlainText env (sends i) chunk)
                      (enumerate 0 (chunkTextWithMode env ?t (textChunkLimit env) (chunkMode env)))"
        by (simp_all add: deliver_def Let_def)
      then show ?thesis by (simp add: sends_no_creation slack_await)
    next
      case (Some c)
      show ?thesis
      proof (cases "k = Some FinalReply")
        case True
        with False Some assms have cc: "closeCard ?t (awaitCreation st) = (st', es)"
          by (simp add: deliver_def Let_def)
        from closeCard_count[OF cc] closeCard_finish_slack[OF cc] Some
        show ?thesis by (simp add: await_idem slack_def)
      next
        case kf: False
        with False Some assms have "st' = awaitCreation st" "es = []"
          by (simp_all add: deliver_def Let_def)
        then show ?thesis by (simp add: slack_await creations_def)
      qed
    qed
  qed
qed

lemma handleReplyEvent_count:
  assumes "handleReplyEvent env ev st = (st', es)"
  shows "creations es + slack st' \<le> finishes es + (if isDispatchError ev then 1 else 0) + slack st"
proof (cases ev)
  case (ReplyStart outcome)
  with assms onReplyStart_count[of env outcome st st' es] show ?thesis by simp
next
  case (Fragment p k sends)
  with assms deliver_count[of env sends p k st st' es] show ?thesis by simp
next
  case (DispatchError e)
  with assms closeCard_count[of "ascii ''Error: '' @ e" st st' es] show ?thesis
    by (simp add: onError_def)
qed

lemma runReplyEvents_count:
  "runReplyEvents env evs st = (st', es) \<Longrightarrow>
   creations es + slack st' \<le> finishes es + dispatchErrors evs + slack st"
proof (induction evs arbitrary: st st' es)
  case Nil
  then show ?case by (simp add: creations_def)
next
  case (Cons ev evs)
  obtain st1 e1 where a: "handleReplyEvent env ev st = (st1, e1)" by (cases "handleReplyEvent env ev st")
  obtain st2 e2 where b: "runReplyEvents env evs st1 = (st2, e2)" by (cases "runReplyEvents env evs st1")
  from Cons.prems a b have eq: "st' = st2" "es = e1 @ e2" by simp_all
  from handleReplyEvent_count[OF a] Cons.IH[OF b] show ?case
    by (cases "isDispatchError ev") (simp_all add: eq creations_append finishes_append dispatchErrors_def)
qed

text \<open>
  Claim C6 (as amended). \<open>startCard\<close> does nothing whenever a creation promise is held
  (pending or settled) or a card exists. \<open>closeCard\<close> clears both, so a later reply start
  creates again: over any sequence of reply-start, fragment and dispatch-error events on a
  fresh dispatcher, the number of card creations by \<open>startCard\<close> is at most one more than the
  number of card finalisations by \<open>closeCard\<close> plus the number of dispatch errors.
\<close>

theorem card_creation_attempts:
  "(cardCreationPromise st \<noteq> None \<or> cardRef st \<noteq> None \<longrightarrow> startCard env outcome st = (st, []))
   \<and> creations (snd (runReplyEvents env evs initialDispatcherState))
        \<le> 1 + finishes (snd (runReplyEvents env evs initialDispatcherState)) + dispatchErrors evs"
proof -
  obtain st' es where r: "runReplyEvents env evs initialDispatcherState = (st', es)"
    by (cases "runReplyEvents env evs initialDispatcherState")
  from runReplyEvents_count[OF r] have "creations es \<le> 1 + finishes es + dispatchErrors evs"
    by (simp add: slack_def initialDispatcherState_def)
  with r startCard_guard[of st env outcome] show ?thesis by auto
qed

lemma run_two_turns:
  "runReplyEvents directEnv
     [ReplyStart (Fulfilled (Some card1)), Fragment (Some (ascii ''hi'')) (Some FinalReply) (\<lambda>i. cardEnv),
      ReplyStart (Fulfilled (Some card2))] initialDispatcherState
   = (\<lparr>cardRef = None, cardCreationPromise = Some (Pending (Fulfilled (Some card2)))\<rparr>,
      [CreateAICardForTarget (UserTarget (ascii ''user_1'')), FinishAICard card1 (ascii ''hi''),
       CreateAICardForTarget (UserTarget (ascii ''user_1''))])"
  by (simp add: initialDispatcherState_def onReplyStart_def startCard_def deliver_def closeCard_def
      awaitCreation_def replyTarget_def directEnv_def js_trim_def isWhiteSpace_def
      isLineTerminator_def ascii_def Let_def)

text \<open>
  Claim C6 as stated fails: reply start, a final fragment delivered on the card, reply
  start again, all on one dispatcher, create a card twice.
\<close>

theorem card_creation_twice_counterexample:
  "creations (snd (runReplyEvents directEnv
     [ReplyStart (Fulfilled (Some card1)), Fragment (Some (ascii ''hi'')) (Some FinalReply) (\<lambda>i. cardEnv),
      ReplyStart (Fulfilled (Some card2))] initialDispatcherState)) = 2"
  unfolding run_two_turns by (simp add: creations_def)

theorem card_creation_attempts_witness:
  "cardCreationPromise \<lparr>cardRef = None, cardCreationPromise = Some Settled\<rparr> \<noteq> None
   \<and> startCard directEnv (Fulfilled (Some card1)) \<lparr>cardRef = None, cardCreationPromise = Some Settled\<rparr>
        = (\<lparr>cardRef = None, cardCreationPromise = Some Settled\<rparr>, [])
   \<and> creations (snd (runReplyEvents directEnv
          [ReplyStart (Fulfilled (Some card1)), ReplyStart (Fulfilled (Some card2)),
           Fragment (Some (ascii ''hi'')) (Some BlockReply) (\<lambda>i. cardEnv)] initialDispatcherState))
        \<le> 1 + finishes (snd (runReplyEvents directEnv
          [ReplyStart (Fulfilled (Some card1)), ReplyStart (Fulfilled (Some card2)),
           Fragment (Some (ascii ''hi'')) (Some BlockReply) (\<lambda>i. cardEnv)] initialDispatcherState))
          + dispatchErrors [ReplyStart (Fulfilled (Some card1)), ReplyStart (Fulfilled (Some card2)),
           Fragment (Some (ascii ''hi'')) (Some BlockReply) (\<lambda>i. cardEnv)]"
proof -
  have "cardCreationPromise \<lparr>cardRef = None, cardCreationPromise = Some Settled\<rparr> \<noteq> None" by simp
  with card_creation_attempts[of "\<lparr>cardRef = None, cardCreationPromise = Some Settled\<rparr>" directEnv
      "Fulfilled (Some card1)" "[ReplyStart (Fulfilled (Some card1)), ReplyStart (Fulfilled (Some card2)),
           Fragment (Some (ascii ''hi'')) (Some BlockReply) (\<lambda>i. cardEnv)]"]
  show ?thesis by blast
qed























section \<open>Properties of the inbound handler\<close>

lemma commands_trimmed: "cmd \<in> set NEW_SESSION_COMMANDS \<Longrightarrow> js_trim cmd = cmd \<and> cmd \<noteq> []"
  by (auto simp: NEW_SESSION_COMMANDS_def js_trim_def ascii_def isWhiteSpace_def isLineTerminator_def)

lemma command_recognised: "cmd \<in> set NEW_SESSION_COMMANDS \<Longrightarrow> isNewSessionCommand lower cmd"
proof -
  assume c: "cmd \<in> set NEW_SESSION_COMMANDS"
  then have "js_trim cmd = cmd" using commands_trimmed by blast
  with c show ?thesis
    unfolding isNewSessionCommand_def Let_def list_ex_iff by auto
qed

lemma handle_reset:
  assumes "runtimeInitialized env" and "fst (extractMessageContent d) \<in> set NEW_SESSION_COMMANDS"
  shows "handleDingTalkMessage env now cfg d sessions
           = Inr (snd (getSessionKey now (valueOr (senderStaffId d) (eventSenderId d)) True
                         (case sessionTimeout cfg of None \<Rightarrow> 1800000 | Some t \<Rightarrow> t) sessions), [])"
proof -
  obtain tx mt where e: "extractMessageContent d = (tx, mt)" by (cases "extractMessageContent d")
  with assms(2) have c: "tx \<in> set NEW_SESSION_COMMANDS" by simp
  then have ne: "tx \<noteq> [] " using commands_trimmed by blast
  from c have r: "isNewSessionCommand (toLowerCaseFn env) tx" by (rule command_recognised)
  show ?thesis
    unfolding handleDingTalkMessage_def Let_def e
    using assms(1) ne r by simp
qed

lemma handle_other:
  assumes "runtimeInitialized env" and "fst (extractMessageContent d) \<noteq> []"
    and "\<not> isNewSessionCommand (toLowerCaseFn env) (fst (extractMessageContent d))"
  shows "handleDingTalkMessage env now cfg d sessions
           = Inr (sessions, replyFlow env d (fst (extractMessageContent d)))"
proof -
  obtain tx mt where e: "extractMessageContent d = (tx, mt)" by (cases "extractMessageContent d")
  with assms(2) assms(3) have ne: "tx \<noteq> []" and r: "\<not> isNewSessionCommand (toLowerCaseFn env) tx"
    by simp_all
  show ?thesis
    unfolding handleDingTalkMessage_def Let_def e
    using assms(1) ne r by simp
qed

lemma forced_stores:
  "snd (getSessionKey now s True tm sessions) s
     = Some \<lparr>lastActivity = now, sessionId = rotatedSessionId s now\<rparr>"
  by (simp add: getSessionKey_def Let_def)

lemma replyFlow_starts: "hd (replyFlow env d tx)
    = ResolveAgentRoute (conversationType d = Some (ascii ''1''))
        (if conversationType d = Some (ascii ''1'') then valueOr (senderStaffId d) (eventSenderId d)
         else eventConversationId d)"
  by (simp add: replyFlow_def Let_def)

text \<open>
  Claim C9. With the runtime initialised, an event whose extracted text is one of
  \<open>NEW_SESSION_COMMANDS\<close> makes \<open>handleDingTalkMessage\<close> call \<open>getSessionKey\<close> with
  \<open>forceNew = true\<close> for the sender, which stores the rotated session, and return with no
  call into routing, envelope building or reply dispatch. For contrast, any other
  non-empty text leaves the session store as it is and starts the reply flow with the
  route resolution.
\<close>

theorem reset_command_rotates_only:
  "(runtimeInitialized env \<and> fst (extractMessageContent d) \<in> set NEW_SESSION_COMMANDS \<longrightarrow>
      handleDingTalkMessage env now cfg d sessions
        = Inr (snd (getSessionKey now (valueOr (senderStaffId d) (eventSenderId d)) True
                      (case sessionTimeout cfg of None \<Rightarrow> 1800000 | Some t \<Rightarrow> t) sessions), [])
      \<and> snd (getSessionKey now (valueOr (senderStaffId d) (eventSenderId d)) True
                (case sessionTimeout cfg of None \<Rightarrow> 1800000 | Some t \<Rightarrow> t) sessions)
            (valueOr (senderStaffId d) (eventSenderId d))
          = Some \<lparr>lastActivity = now,
                  sessionId = rotatedSessionId (valueOr (senderStaffId d) (eventSenderId d)) now\<rparr>)
   \<and> (runtimeInitialized env \<and> fst (extractMessageContent d) \<noteq> []
        \<and> \<not> isNewSessionCommand (toLowerCaseFn env) (fst (extractMessageContent d)) \<longrightarrow>
      handleDingTalkMessage env now cfg d sessions
        = Inr (sessions, replyFlow env d (fst (extractMessageContent d)))
      \<and> hd (replyFlow env d (fst (extractMessageContent d)))
          = ResolveAgentRoute (conversationType d = Some (ascii ''1''))
              (if conversationType d = Some (ascii ''1'')
               then valueOr (senderStaffId d) (eventSenderId d) else eventConversationId d))"
  using handle_reset[of env d now cfg sessions] handle_other[of env d now cfg sessions]
    forced_stores[of now "valueOr (senderStaffId d) (eventSenderId d)"
       "case sessionTimeout cfg of None \<Rightarrow> 1800000 | Some t \<Rightarrow> t" sessions]
    replyFlow_starts[of env d "fst (extractMessageContent d)"]
  by blast

lemma extract_reset: "extractMessageContent resetEvent = (ascii ''/new'', ascii ''text'')"
  by (simp add: extractMessageContent_def resetEvent_def valueOr_def trimmedEventText_def ascii_def
      js_trim_def isWhiteSpace_def isLineTerminator_def Let_def)

lemma extract_hello: "extractMessageContent helloEvent = (ascii ''hello'', ascii ''text'')"
  by (simp add: extractMessageContent_def helloEvent_def resetEvent_def valueOr_def
      trimmedEventText_def ascii_def js_trim_def isWhiteSpace_def isLineTerminator_def Let_def)

lemma hello_not_command: "\<not> isNewSessionCommand asciiLower (ascii ''hello'')"
  by (simp add: isNewSessionCommand_def NEW_SESSION_COMMANDS_def asciiLower_def ascii_def
      js_trim_def isWhiteSpace_def isLineTerminator_def Let_def)

theorem reset_command_rotates_only_witness:
  "runtimeInitialized liveEnv
   \<and> fst (extractMessageContent resetEvent) \<in> set NEW_SESSION_COMMANDS
   \<and> handleDingTalkMessage liveEnv 5000 testConfig resetEvent Map.empty
        = Inr ([ascii ''staff_1'' \<mapsto>
                  \<lparr>lastActivity = 5000, sessionId = rotatedSessionId (ascii ''staff_1'') 5000\<rparr>], [])
   \<and> fst (extractMessageContent helloEvent) \<noteq> []
   \<and> \<not> isNewSessionCommand (toLowerCaseFn liveEnv) (fst (extractMessageContent helloEvent))
   \<and> handleDingTalkMessage liveEnv 5000 testConfig helloEvent Map.empty
        = Inr (Map.empty, replyFlow liveEnv helloEvent (ascii ''hello''))"
proof -
  have r: "runtimeInitialized liveEnv" by (simp add: liveEnv_def)
  have c: "fst (extractMessageContent resetEvent) \<in> set NEW_SESSION_COMMANDS"
    unfolding extract_reset by (simp add: NEW_SESSION_COMMANDS_def)
  have h1: "fst (extractMessageContent helloEvent) \<noteq> []"
    unfolding extract_hello by (simp add: ascii_def)
  have h2: "\<not> isNewSessionCommand (toLowerCaseFn liveEnv) (fst (extractMessageContent helloEvent))"
    unfolding extract_hello using hello_not_command by (simp add: liveEnv_def)
  have s: "valueOr (senderStaffId resetEvent) (eventSenderId resetEvent) = ascii ''staff_1''"
    by (simp add: valueOr_def resetEvent_def ascii_def)
  have g: "snd (getSessionKey 5000 (ascii ''staff_1'') True
                  (case sessionTimeout testConfig of None \<Rightarrow> 1800000 | Some t \<Rightarrow> t) Map.empty)
             = [ascii ''staff_1'' \<mapsto>
                  \<lparr>lastActivity = 5000, sessionId = rotatedSessionId (ascii ''staff_1'') 5000\<rparr>]"
    by (simp add: getSessionKey_def Let_def)
  from reset_command_rotates_only[where env = liveEnv and d = resetEvent and now = 5000
      and cfg = testConfig and sessions = Map.empty] r c
  have w1: "handleDingTalkMessage liveEnv 5000 testConfig resetEvent Map.empty
        = Inr (snd (getSessionKey 5000 (valueOr (senderStaffId resetEvent) (eventSenderId resetEvent)) True
                      (case sessionTimeout testConfig of None \<Rightarrow> 1800000 | Some t \<Rightarrow> t) Map.empty), [])"
    by blast
  from reset_command_rotates_only[where env = liveEnv and d = helloEvent and now = 5000
      and cfg = testConfig and sessions = Map.empty] r h1 h2
  have w2: "handleDingTalkMessage liveEnv 5000 testConfig helloEvent Map.empty
        = Inr (Map.empty, replyFlow liveEnv helloEvent (fst (extractMessageContent helloEvent)))"
    by blast
  have f: "fst (extractMessageContent helloEvent) = ascii ''hello''" unfolding extract_hello by simp
  from r c w1[unfolded s g] h1 h2 w2[unfolded f] show ?thesis by blast
qed


end
